theory Spec2Isabelle
  imports Main "HOL-Library.Sublist"
begin

section \<open>FTPSync, FTPBackup and FTPRestore: the transfer drivers\<close>

text \<open>
  The three programs are embedded as functions over the value of the command line
  arguments and an FTP server that answers their commands. Exceptions are values of a
  sum type; \<open>main\<close> turns them into the exit status, as its \<open>catch\<close> block does.
\<close>

subsection \<open>Errors and strings\<close>

text \<open>
  The exceptions \<open>main\<close> can catch: a \<open>CFTP::Exception\<close> with its message (thrown by
  \<open>main\<close> itself or by a library call), the \<open>std::out_of_range\<close> of
  \<open>std::string::substr\<close>, and any other \<open>std::exception\<close> of a library call.
\<close>

datatype error = CFTP_Exception string | std_out_of_range | std_exception string

text \<open>
  \<open>std::string::rfind(c)\<close>: the position of the last occurrence of \<open>c\<close>, scanning with
  a running index; \<open>None\<close> stands for \<open>npos\<close>.
\<close>

primrec rfind_from :: "char \<Rightarrow> string \<Rightarrow> nat \<Rightarrow> nat option \<Rightarrow> nat option" where
  "rfind_from c [] i found = found"
| "rfind_from c (x # xs) i found = rfind_from c xs (Suc i) (if x = c then Some i else found)"

definition rfind :: "string \<Rightarrow> char \<Rightarrow> nat option" where
  "rfind s c = rfind_from c s 0 None"

text \<open>
  \<open>std::string::substr(pos)\<close>: the rest of the string from \<open>pos\<close>; it throws
  \<open>std::out_of_range\<close> when \<open>pos > size()\<close>, which is always so for \<open>npos\<close>.
\<close>

definition substr :: "string \<Rightarrow> nat option \<Rightarrow> error + string" where
  "substr s pos =
     (case pos of
        None \<Rightarrow> Inl std_out_of_range
      | Some n \<Rightarrow> if n > length s then Inl std_out_of_range else Inr (drop n s))"

subsection \<open>Command line parameter data\<close>

record ParamArgData =
  userName :: string
  userPassword :: string
  serverName :: string
  serverPort :: string
  remoteDirectory :: string
  localDirectory :: string
  configFileName :: string

type_synonym FileList = "string list"

text \<open>
  \<open>procCmdLine\<close> of FTPSync, after the options are parsed into \<open>argData\<close>: the local
  directory gets a trailing \<open>'/'\<close> when it has none. \<open>back()\<close> of an empty string is
  undefined behaviour: the model has no value for it.
\<close>

definition procCmdLine :: "ParamArgData \<Rightarrow> ParamArgData option" where
  "procCmdLine argData =
     (if localDirectory argData = [] then None
      else if last (localDirectory argData) \<noteq> CHR ''/''
        then Some (argData\<lparr>localDirectory := localDirectory argData @ [CHR ''/'']\<rparr>)
        else Some argData)"

subsection \<open>Converting between local and remote paths\<close>

definition localFileToRemote :: "ParamArgData \<Rightarrow> string \<Rightarrow> error + string" where
  "localFileToRemote argData localFilePath =
     (case substr localFilePath (rfind (localDirectory argData) CHR ''/'') of
        Inl e \<Rightarrow> Inl e
      | Inr piece \<Rightarrow> Inr (remoteDirectory argData @ piece))"

definition remoteFileToLocal :: "ParamArgData \<Rightarrow> string \<Rightarrow> error + string" where
  "remoteFileToLocal argData remoteFilePath =
     (case substr remoteFilePath (Some (length (remoteDirectory argData) + 1)) of
        Inl e \<Rightarrow> Inl e
      | Inr piece \<Rightarrow> Inr (localDirectory argData @ piece))"

subsection \<open>The library: FTP server and local files\<close>

text \<open>
  \<open>CFTP\<close>, \<open>FTPUtil\<close> and \<open>CFile\<close> belong to the Antik library, which the programs
  only call. Their operations are parameters of the model: each server operation takes
  the server's state \<open>'s\<close> and gives back what the call returns, or the exception it
  throws, and the next state. An output parameter of the C++ (the directory of
  \<open>getCurrentWoringDirectory\<close>, the time of \<open>getModifiedDateTime\<close>, the lists) is
  part of the value returned. \<open>'t\<close> is \<open>CFTP::DateTime\<close> with its default
  constructor, its conversion from the \<open>std::tm\<close> of \<open>std::localtime\<close> and its
  \<open>operator<\<close>. The setters of server, port, account and SSL send nothing and are left
  out.
\<close>

record ('s, 't) CFTP =
  connect :: "'s \<Rightarrow> (error + nat) \<times> 's"
  getCommandResponse :: "'s \<Rightarrow> string"
  fileExists :: "string \<Rightarrow> 's \<Rightarrow> (error + bool) \<times> 's"
  changeWorkingDirectory :: "string \<Rightarrow> 's \<Rightarrow> (error + nat) \<times> 's"
  getCurrentWoringDirectory :: "string \<Rightarrow> 's \<Rightarrow> (error + string) \<times> 's"
  deleteFile :: "string \<Rightarrow> 's \<Rightarrow> (error + nat) \<times> 's"
  removeDirectory :: "string \<Rightarrow> 's \<Rightarrow> (error + nat) \<times> 's"
  getModifiedDateTime :: "string \<Rightarrow> 's \<Rightarrow> (error + nat \<times> 't) \<times> 's"
  putFile :: "string \<Rightarrow> string \<Rightarrow> 's \<Rightarrow> (error + nat) \<times> 's"
  disconnect :: "'s \<Rightarrow> (error + nat) \<times> 's"
  makeRemotePath :: "string \<Rightarrow> 's \<Rightarrow> (error + unit) \<times> 's"
  listRemoteRecursive :: "string \<Rightarrow> 's \<Rightarrow> (error + FileList) \<times> 's"
  putFiles :: "string \<Rightarrow> FileList \<Rightarrow> 's \<Rightarrow> (error + FileList) \<times> 's"
  getFiles :: "string \<Rightarrow> FileList \<Rightarrow> 's \<Rightarrow> (error + FileList) \<times> 's"
  DateTime_default :: 't
  DateTime_of_localtime :: "int \<Rightarrow> 't"
  DateTime_less :: "'t \<Rightarrow> 't \<Rightarrow> bool"

record CFile =
  listLocalRecursive :: "string \<Rightarrow> error + FileList"
  isFile :: "string \<Rightarrow> bool"
  lastWriteTime :: "string \<Rightarrow> int"

subsection \<open>The running program\<close>

text \<open>
  What a program has asked of the library so far is kept in a trace, each call with
  its answer; the properties of the passes are stated on it.
\<close>

datatype command =
    Connect
  | FileExists string
  | MakeRemotePath string
  | ChangeWorkingDirectory string
  | GetCurrentWoringDirectory
  | ListRemoteRecursive string
  | ListLocalRecursive string
  | PutFiles string FileList
  | GetFiles string FileList
  | DeleteFile string
  | RemoveDirectory string
  | GetModifiedDateTime string
  | PutFile string string
  | Disconnect

datatype reply = Status nat | Flag bool | Directory string | Files FileList | Returned | Threw error

record 's process =
  ftpServer :: 's
  trace :: "(command \<times> reply) list"

type_synonym ('st, 'a) action = "'st \<Rightarrow> (error + 'a) \<times> 'st"

definition returnM :: "'a \<Rightarrow> ('st, 'a) action" where
  "returnM x st = (Inr x, st)"

definition throwM :: "error \<Rightarrow> ('st, 'a) action" where
  "throwM e st = (Inl e, st)"

definition bindM :: "('st, 'a) action \<Rightarrow> ('a \<Rightarrow> ('st, 'b) action) \<Rightarrow> ('st, 'b) action" where
  "bindM m f st = (case m st of (Inl e, st') \<Rightarrow> (Inl e, st') | (Inr x, st') \<Rightarrow> f x st')"

text \<open>A call of a server operation: the server moves on and the trace grows.\<close>

definition answer :: "('a \<Rightarrow> reply) \<Rightarrow> error + 'a \<Rightarrow> reply" where
  "answer shown r = (case r of Inl e \<Rightarrow> Threw e | Inr x \<Rightarrow> shown x)"

definition call ::
  "command \<Rightarrow> ('a \<Rightarrow> reply) \<Rightarrow> ('s \<Rightarrow> (error + 'a) \<times> 's)
     \<Rightarrow> (('s, 'z) process_scheme, 'a) action" where
  "call c shown act st =
     (case act (ftpServer st) of
        (r, s') \<Rightarrow> (r, st\<lparr>ftpServer := s', trace := trace st @ [(c, answer shown r)]\<rparr>))"

text \<open>A call of a local file operation that can throw.\<close>

definition callLocal ::
  "command \<Rightarrow> ('a \<Rightarrow> reply) \<Rightarrow> error + 'a \<Rightarrow> (('s, 'z) process_scheme, 'a) action" where
  "callLocal c shown r st = (r, st\<lparr>trace := trace st @ [(c, answer shown r)]\<rparr>)"

text \<open>A range-based \<open>for\<close> over a list the body does not change.\<close>

fun forEach :: "('a \<Rightarrow> ('st, unit) action) \<Rightarrow> 'a list \<Rightarrow> ('st, unit) action" where
  "forEach body [] st = (Inr (), st)"
| "forEach body (x # xs) st =
     (case body x st of (Inl e, st') \<Rightarrow> (Inl e, st') | (Inr u, st') \<Rightarrow> forEach body xs st')"

definition EXIT_SUCCESS :: nat where
  "EXIT_SUCCESS = 0"

definition EXIT_FAILURE :: nat where
  "EXIT_FAILURE = 1"

text \<open>The end of \<open>main\<close>: an exception caught goes to \<open>exitWithError\<close>.\<close>

definition exitStatus :: "error + unit \<Rightarrow> nat" where
  "exitStatus r = (case r of Inl e \<Rightarrow> EXIT_FAILURE | Inr u \<Rightarrow> EXIT_SUCCESS)"

subsection \<open>FTPSync\<close>

text \<open>The variables of \<open>main\<close> in FTPSync.cpp. Its progress messages are left out.\<close>

record ('s, 't) FTPSync = "'s process" +
  argData :: ParamArgData
  localFiles :: FileList
  remoteFiles :: FileList
  newFiles :: FileList
  newFilesTransfered :: FileList
  remoteFileModifiedTimes :: "string \<rightharpoonup> 't"

definition connectServer :: "('s, 't) CFTP \<Rightarrow> (('s, 'z) process_scheme, unit) action" where
  "connectServer ftp =
     bindM (call Connect Status (connect ftp)) (\<lambda>status st.
       if status \<noteq> 230
       then throwM (CFTP_Exception
              (''Unable to connect status returned = '' @ getCommandResponse ftp (ftpServer st))) st
       else returnM () st)"

text \<open>Lines 229 to 236: create the remote directory.\<close>

definition createRemoteDirectory :: "('s, 't) CFTP \<Rightarrow> (('s, 't) FTPSync, unit) action" where
  "createRemoteDirectory ftp st =
     bindM (call (FileExists (remoteDirectory (argData st))) Flag
              (fileExists ftp (remoteDirectory (argData st)))) (\<lambda>found.
       if \<not> found
       then bindM (call (MakeRemotePath (remoteDirectory (argData st))) (\<lambda>u. Returned)
                     (makeRemotePath ftp (remoteDirectory (argData st)))) (\<lambda>u.
              bindM (call (FileExists (remoteDirectory (argData st))) Flag
                       (fileExists ftp (remoteDirectory (argData st)))) (\<lambda>found.
                if \<not> found
                then throwM (CFTP_Exception (''Remote FTP server directory ''
                        @ remoteDirectory (argData st) @ '' could not created.''))
                else returnM ()))
       else returnM ()) st"

text \<open>Lines 238 and 239: the remote directory becomes what the server reports.\<close>

definition enterRemoteDirectory :: "('s, 't) CFTP \<Rightarrow> (('s, 't) FTPSync, unit) action" where
  "enterRemoteDirectory ftp st =
     bindM (call (ChangeWorkingDirectory (remoteDirectory (argData st))) Status
              (changeWorkingDirectory ftp (remoteDirectory (argData st)))) (\<lambda>status.
       bindM (call GetCurrentWoringDirectory Directory
                (getCurrentWoringDirectory ftp (remoteDirectory (argData st)))) (\<lambda>dir st'.
         returnM () (st'\<lparr>argData := (argData st')\<lparr>remoteDirectory := dir\<rparr>\<rparr>))) st"

text \<open>Lines 243 and 244: the two file lists.\<close>

definition getFileLists :: "('s, 't) CFTP \<Rightarrow> CFile \<Rightarrow> (('s, 't) FTPSync, unit) action" where
  "getFileLists ftp fs st =
     bindM (call (ListRemoteRecursive (remoteDirectory (argData st))) Files
              (listRemoteRecursive ftp (remoteDirectory (argData st)))) (\<lambda>remote st'.
       bindM (callLocal (ListLocalRecursive (localDirectory (argData st))) Files
                (listLocalRecursive fs (localDirectory (argData st)))) (\<lambda>local st''.
         returnM () (st''\<lparr>localFiles := local\<rparr>)) (st'\<lparr>remoteFiles := remote\<rparr>)) st"

text \<open>Pass 1, lines 258 to 271: copy new files to the server.\<close>

definition noteNewFile :: "string \<Rightarrow> (('s, 't) FTPSync, unit) action" where
  "noteNewFile file st =
     (case localFileToRemote (argData st) file of
        Inl e \<Rightarrow> throwM e st
      | Inr remote \<Rightarrow>
          if remote \<notin> set (remoteFiles st)
          then returnM () (st\<lparr>newFiles := newFiles st @ [file]\<rparr>)
          else returnM () st)"

definition pass1 :: "('s, 't) CFTP \<Rightarrow> (('s, 't) FTPSync, unit) action" where
  "pass1 ftp st =
     bindM (forEach noteNewFile (localFiles st)) (\<lambda>u st'.
       if newFiles st' \<noteq> []
       then bindM (call (PutFiles (localDirectory (argData st')) (newFiles st')) Files
                     (putFiles ftp (localDirectory (argData st')) (newFiles st'))) (\<lambda>sent st''.
              returnM () (st''\<lparr>newFilesTransfered := sent,
                                 remoteFiles := remoteFiles st'' @ sent\<rparr>)) st'
       else returnM () st') (st\<lparr>newFiles := [], newFilesTransfered := []\<rparr>)"

text \<open>Pass 2, lines 277 to 287: remove from the server what is gone locally.\<close>

definition removeIfDeleted :: "('s, 't) CFTP \<Rightarrow> string \<Rightarrow> (('s, 't) FTPSync, unit) action" where
  "removeIfDeleted ftp file st =
     (case remoteFileToLocal (argData st) file of
        Inl e \<Rightarrow> throwM e st
      | Inr local \<Rightarrow>
          if local \<notin> set (localFiles st)
          then bindM (call (DeleteFile file) Status (deleteFile ftp file)) (\<lambda>status.
                 if status = 250 then returnM ()
                 else bindM (call (RemoveDirectory file) Status (removeDirectory ftp file))
                        (\<lambda>status. returnM ())) st
          else returnM () st)"

definition pass2 :: "('s, 't) CFTP \<Rightarrow> (('s, 't) FTPSync, unit) action" where
  "pass2 ftp st = forEach (removeIfDeleted ftp) (remoteFiles st) st"

text \<open>
  Pass 3, lines 297 to 321. First the map of remote modification times; then the
  comparison, through \<open>operator[]\<close> of \<open>std::unordered_map\<close>, which adds a default
  constructed value under a key the map does not have and returns it.
\<close>

definition noteModifiedTime :: "('s, 't) CFTP \<Rightarrow> string \<Rightarrow> (('s, 't) FTPSync, unit) action" where
  "noteModifiedTime ftp file =
     bindM (call (GetModifiedDateTime file) (\<lambda>r. Status (fst r)) (getModifiedDateTime ftp file))
       (\<lambda>r st.
         if fst r = 213
         then returnM () (st\<lparr>remoteFileModifiedTimes := (remoteFileModifiedTimes st)(file \<mapsto> snd r)\<rparr>)
         else returnM () st)"

definition subscript :: "'t \<Rightarrow> (string \<rightharpoonup> 't) \<Rightarrow> string \<Rightarrow> 't \<times> (string \<rightharpoonup> 't)" where
  "subscript dflt m key = (case m key of None \<Rightarrow> (dflt, m(key \<mapsto> dflt)) | Some v \<Rightarrow> (v, m))"

definition copyIfUpdated ::
  "('s, 't) CFTP \<Rightarrow> CFile \<Rightarrow> string \<Rightarrow> (('s, 't) FTPSync, unit) action" where
  "copyIfUpdated ftp fs file st =
     (if isFile fs file
      then let localModifiedTime = lastWriteTime fs file in
        (case localFileToRemote (argData st) file of
           Inl e \<Rightarrow> throwM e st
         | Inr remote \<Rightarrow>
             (case subscript (DateTime_default ftp) (remoteFileModifiedTimes st) remote of
                (remoteTime, filled) \<Rightarrow>
                  if DateTime_less ftp remoteTime (DateTime_of_localtime ftp localModifiedTime)
                  then bindM (call (PutFile remote file) Status (putFile ftp remote file))
                         (\<lambda>status. returnM ()) (st\<lparr>remoteFileModifiedTimes := filled\<rparr>)
                  else returnM () (st\<lparr>remoteFileModifiedTimes := filled\<rparr>)))
      else returnM () st)"

definition fillModifiedTimes :: "('s, 't) CFTP \<Rightarrow> (('s, 't) FTPSync, unit) action" where
  "fillModifiedTimes ftp st =
     forEach (noteModifiedTime ftp) (remoteFiles st) (st\<lparr>remoteFileModifiedTimes := Map.empty\<rparr>)"

definition copyUpdated :: "('s, 't) CFTP \<Rightarrow> CFile \<Rightarrow> (('s, 't) FTPSync, unit) action" where
  "copyUpdated ftp fs st = forEach (copyIfUpdated ftp fs) (localFiles st) st"

definition pass3 :: "('s, 't) CFTP \<Rightarrow> CFile \<Rightarrow> (('s, 't) FTPSync, unit) action" where
  "pass3 ftp fs = bindM (fillModifiedTimes ftp) (\<lambda>u. copyUpdated ftp fs)"

text \<open>The three passes, and the body of \<open>main\<close> after \<open>procCmdLine\<close>.\<close>

definition passes :: "('s, 't) CFTP \<Rightarrow> CFile \<Rightarrow> (('s, 't) FTPSync, unit) action" where
  "passes ftp fs = bindM (pass1 ftp) (\<lambda>u. bindM (pass2 ftp) (\<lambda>u. pass3 ftp fs))"

text \<open>Lines 225 to 239: up to the remote directory the run works in.\<close>

definition setUp :: "('s, 't) CFTP \<Rightarrow> (('s, 't) FTPSync, unit) action" where
  "setUp ftp =
     bindM (connectServer ftp) (\<lambda>u.
     bindM (createRemoteDirectory ftp) (\<lambda>u. enterRemoteDirectory ftp))"

text \<open>Lines 243 to 325: the file lists, the passes, and the disconnect.\<close>

definition reconcile :: "('s, 't) CFTP \<Rightarrow> CFile \<Rightarrow> (('s, 't) FTPSync, unit) action" where
  "reconcile ftp fs =
     bindM (getFileLists ftp fs) (\<lambda>u.
     bindM (passes ftp fs) (\<lambda>u.
     bindM (call Disconnect Status (disconnect ftp)) (\<lambda>status. returnM ())))"

definition syncBody :: "('s, 't) CFTP \<Rightarrow> CFile \<Rightarrow> (('s, 't) FTPSync, unit) action" where
  "syncBody ftp fs = bindM (setUp ftp) (\<lambda>u. reconcile ftp fs)"

definition syncStart :: "ParamArgData \<Rightarrow> 's \<Rightarrow> ('s, 't) FTPSync" where
  "syncStart args s =
     \<lparr>ftpServer = s, trace = [], argData = args, localFiles = [], remoteFiles = [],
      newFiles = [], newFilesTransfered = [], remoteFileModifiedTimes = Map.empty\<rparr>"

definition syncMain ::
  "('s, 't) CFTP \<Rightarrow> CFile \<Rightarrow> ParamArgData \<Rightarrow> 's \<Rightarrow> (nat \<times> ('s, 't) FTPSync) option" where
  "syncMain ftp fs args s =
     (case procCmdLine args of
        None \<Rightarrow> None
      | Some parsed \<Rightarrow>
          (case syncBody ftp fs (syncStart parsed s) of
             (r, st) \<Rightarrow> Some (exitStatus r, st)))"

subsection \<open>FTPBackup and FTPRestore\<close>

text \<open>
  The two programs print their result; \<open>cout\<close> holds the lines of the report (the
  banner of the parameters, printed before the server is contacted, is left out).
  FTPBackup takes the local directory from its arguments, FTPRestore the remote and the
  local one.
\<close>

record 's console = "'s process" +
  cout :: "string list"

definition printLines :: "string list \<Rightarrow> ('s console, unit) action" where
  "printLines ls st = returnM () (st\<lparr>cout := cout st @ ls\<rparr>)"

definition backupBody :: "('s, 't) CFTP \<Rightarrow> CFile \<Rightarrow> string \<Rightarrow> ('s console, unit) action" where
  "backupBody ftp fs localDir =
     bindM (connectServer ftp) (\<lambda>u.
     bindM (callLocal (ListLocalRecursive localDir) Files (listLocalRecursive fs localDir))
       (\<lambda>locaFileList.
     bindM (if locaFileList \<noteq> []
            then call (PutFiles localDir locaFileList) Files (putFiles ftp localDir locaFileList)
            else returnM []) (\<lambda>filesBackedUp.
     bindM (if filesBackedUp \<noteq> []
            then printLines (map (\<lambda>file. ''Sucessfully backed up ['' @ file @ '']'') filesBackedUp)
            else printLines [''Backup failed.'']) (\<lambda>u.
     bindM (call Disconnect Status (disconnect ftp)) (\<lambda>status. returnM ())))))"

definition restoreBody :: "('s, 't) CFTP \<Rightarrow> string \<Rightarrow> string \<Rightarrow> ('s console, unit) action" where
  "restoreBody ftp remoteDir localDir =
     bindM (connectServer ftp) (\<lambda>u.
     bindM (call (ListRemoteRecursive remoteDir) Files (listRemoteRecursive ftp remoteDir))
       (\<lambda>remoteFileList.
     bindM (if remoteFileList \<noteq> []
            then call (GetFiles localDir remoteFileList) Files (getFiles ftp localDir remoteFileList)
            else returnM []) (\<lambda>restoredFiles.
     bindM (if restoredFiles \<noteq> []
            then printLines (map (\<lambda>file. ''Successfully restored ['' @ file @ '']'') restoredFiles)
            else printLines [''Restore failed.'']) (\<lambda>u.
     bindM (call Disconnect Status (disconnect ftp)) (\<lambda>status. returnM ())))))"

definition consoleStart :: "'s \<Rightarrow> 's console" where
  "consoleStart s = \<lparr>ftpServer = s, trace = [], cout = []\<rparr>"

definition backupMain :: "('s, 't) CFTP \<Rightarrow> CFile \<Rightarrow> string \<Rightarrow> 's \<Rightarrow> nat \<times> 's console" where
  "backupMain ftp fs localDir s =
     (case backupBody ftp fs localDir (consoleStart s) of (r, st) \<Rightarrow> (exitStatus r, st))"

definition restoreMain :: "('s, 't) CFTP \<Rightarrow> string \<Rightarrow> string \<Rightarrow> 's \<Rightarrow> nat \<times> 's console" where
  "restoreMain ftp remoteDir localDir s =
     (case restoreBody ftp remoteDir localDir (consoleStart s) of (r, st) \<Rightarrow> (exitStatus r, st))"

subsection \<open>A server and a local tree to run the programs on\<close>

text \<open>
  A small server: the entries under its root with their modification times, the
  directories that exist beside them, the working directory, and the clock that stamps
  an upload. \<open>mdtm\<close> says whether it answers the query for a modification time,
  \<open>mkdirs\<close> whether it lets directories be made. A file put replaces the entry of
  its name. Times are numbers, the default \<open>DateTime\<close> is 0.
\<close>

record server =
  listing :: "(string \<times> nat) list"
  folders :: "string list"
  workingDirectory :: string
  clock :: nat
  mdtm :: bool
  mkdirs :: bool

definition sampleFTP :: "(server, nat) CFTP" where
  "sampleFTP =
     \<lparr>connect = (\<lambda>s. (Inr 230, s)),
      getCommandResponse = (\<lambda>s. ''230 Logged in''),
      fileExists = (\<lambda>p s. (Inr (p \<in> set (folders s) \<or> p \<in> set (map fst (listing s))), s)),
      changeWorkingDirectory = (\<lambda>p s. (Inr 250, s\<lparr>workingDirectory := p\<rparr>)),
      getCurrentWoringDirectory = (\<lambda>old s. (Inr (workingDirectory s), s)),
      deleteFile = (\<lambda>p s.
        if p \<in> set (map fst (listing s))
        then (Inr 250, s\<lparr>listing := filter (\<lambda>e. fst e \<noteq> p) (listing s)\<rparr>)
        else (Inr 550, s)),
      removeDirectory = (\<lambda>p s. (Inr 550, s)),
      getModifiedDateTime = (\<lambda>p s.
        if mdtm s
        then (case map_of (listing s) p of
                Some t \<Rightarrow> (Inr (213, t), s)
              | None \<Rightarrow> (Inr (550, 0), s))
        else (Inr (500, 0), s)),
      putFile = (\<lambda>r l s.
        (Inr 226, s\<lparr>listing := filter (\<lambda>e. fst e \<noteq> r) (listing s) @ [(r, clock s)]\<rparr>)),
      disconnect = (\<lambda>s. (Inr 221, s)),
      makeRemotePath = (\<lambda>p s. (Inr (), if mkdirs s then s\<lparr>folders := folders s @ [p]\<rparr> else s)),
      listRemoteRecursive = (\<lambda>d s. (Inr (map fst (listing s)), s)),
      putFiles = (\<lambda>l fl s.
        (Inr (map (\<lambda>p. workingDirectory s @ drop (length l - 1) p) fl),
         s\<lparr>listing :=
             filter (\<lambda>e. fst e \<notin> (\<lambda>p. workingDirectory s @ drop (length l - 1) p) ` set fl)
               (listing s)
             @ map (\<lambda>p. (workingDirectory s @ drop (length l - 1) p, clock s)) fl\<rparr>)),
      getFiles = (\<lambda>l fl s.
        (Inr (map (\<lambda>r. l @ drop (length (workingDirectory s) + 1) r) fl), s)),
      DateTime_default = 0,
      DateTime_of_localtime = nat,
      DateTime_less = (<)\<rparr>"

definition sampleServer :: server where
  "sampleServer =
     \<lparr>listing = [(''/r/a'', 100), (''/r/x'', 100)], folders = [''/r''],
      workingDirectory = ''/'', clock = 300, mdtm = True, mkdirs = True\<rparr>"

definition sampleFiles :: CFile where
  "sampleFiles =
     \<lparr>listLocalRecursive = (\<lambda>d. Inr [''/l/a'', ''/l/b'']),
      isFile = (\<lambda>p. True),
      lastWriteTime = (\<lambda>p. if p = ''/l/a'' then 200 else 50)\<rparr>"

definition sampleArgs :: ParamArgData where
  "sampleArgs =
     \<lparr>userName = ''u'', userPassword = ''p'', serverName = ''s'', serverPort = ''21'',
      remoteDirectory = ''/r'', localDirectory = ''/l'', configFileName = []\<rparr>"

subsection \<open>Vocabulary of the properties\<close>

text \<open>The commands of a trace, and those a program issued between two of its states.\<close>

definition commands :: "(command \<times> reply) list \<Rightarrow> command list" where
  "commands tr = map fst tr"

definition calls ::
  "('s, 'z) process_scheme \<Rightarrow> ('s, 'z) process_scheme \<Rightarrow> (command \<times> reply) list" where
  "calls st st' = drop (length (trace st)) (trace st')"

definition issued :: "('s, 'z) process_scheme \<Rightarrow> ('s, 'z) process_scheme \<Rightarrow> command list" where
  "issued st st' = commands (calls st st')"

text \<open>A path the first pass takes for new: its remote name is not in the list.\<close>

definition isNew :: "ParamArgData \<Rightarrow> FileList \<Rightarrow> string \<Rightarrow> bool" where
  "isNew a remote p =
     (case localFileToRemote a p of Inl e \<Rightarrow> False | Inr r \<Rightarrow> r \<notin> set remote)"

text \<open>A remote path the second pass takes for deleted locally.\<close>

definition isOrphan :: "ParamArgData \<Rightarrow> FileList \<Rightarrow> string \<Rightarrow> bool" where
  "isOrphan a local r =
     (case remoteFileToLocal a r of Inl e \<Rightarrow> False | Inr l \<Rightarrow> l \<notin> set local)"

text \<open>The commands that remove something from the server.\<close>

fun removal :: "command \<Rightarrow> string option" where
  "removal (DeleteFile f) = Some f"
| "removal (RemoveDirectory f) = Some f"
| "removal c = None"

text \<open>An action keeps a relation when the state it ends in is related to the one it began in.\<close>

definition keeps :: "('st \<Rightarrow> 'st \<Rightarrow> bool) \<Rightarrow> ('st, 'a) action \<Rightarrow> bool" where
  "keeps R m = (\<forall>st r st'. m st = (r, st') \<longrightarrow> R st st')"

text \<open>
  The operations of a run: what it pushes (\<open>putFiles\<close> in the first pass, \<open>putFile\<close>
  in the third) and what it deletes.
\<close>

fun operation :: "command \<Rightarrow> bool" where
  "operation (PutFiles l fl) = True"
| "operation (PutFile r p) = True"
| "operation (DeleteFile f) = True"
| "operation (RemoveDirectory f) = True"
| "operation c = False"

definition operations :: "(command \<times> reply) list \<Rightarrow> command list" where
  "operations tr = filter operation (commands tr)"

text \<open>
  Two relations between a state and a later one: \<open>quiet\<close>, when the trace has only
  grown and by no operation; \<open>settled\<close>, when the trace has grown, the parameters and
  the local list are the same and what was removed was deleted locally by their
  account.
\<close>

definition quiet :: "('s, 'z) process_scheme \<Rightarrow> ('s, 'z) process_scheme \<Rightarrow> bool" where
  "quiet st st' =
     (trace st' = trace st @ calls st st' \<and> (\<forall>c \<in> set (issued st st'). \<not> operation c))"

definition settled :: "('s, 't) FTPSync \<Rightarrow> ('s, 't) FTPSync \<Rightarrow> bool" where
  "settled st st' =
     (argData st' = argData st \<and> localFiles st' = localFiles st
      \<and> trace st' = trace st @ calls st st'
      \<and> (\<forall>c \<in> set (issued st st'). \<forall>f. removal c = Some f
            \<longrightarrow> isOrphan (argData st) (localFiles st) f))"

definition grows :: "('s, 'z) process_scheme \<Rightarrow> ('s, 'z) process_scheme \<Rightarrow> bool" where
  "grows st st' = (trace st' = trace st @ calls st st')"

definition sampleRun :: "(nat \<times> (server, nat) FTPSync) option" where
  "sampleRun = syncMain sampleFTP sampleFiles sampleArgs sampleServer"



text \<open>
  What \<open>operator[]\<close> gives for a key: the value in the map, or the default
  \<open>DateTime\<close>. A local path is out of date when it is a file and that value for its
  remote name is less than its local modification time.
\<close>

definition known :: "('s, 't) CFTP \<Rightarrow> (string \<rightharpoonup> 't) \<Rightarrow> string \<Rightarrow> 't" where
  "known ftp m key = fst (subscript (DateTime_default ftp) m key)"

definition localTime :: "('s, 't) CFTP \<Rightarrow> CFile \<Rightarrow> string \<Rightarrow> 't" where
  "localTime ftp fs p = DateTime_of_localtime ftp (lastWriteTime fs p)"


definition remoteName :: "ParamArgData \<Rightarrow> string \<Rightarrow> string" where
  "remoteName a p = (case localFileToRemote a p of Inl e \<Rightarrow> [] | Inr r \<Rightarrow> r)"


text \<open>The sample server when it does not answer the query for a modification time.\<close>

definition sampleNoMdtm :: server where
  "sampleNoMdtm = sampleServer\<lparr>mdtm := False\<rparr>"

text \<open>
  A later state whose map of times has, beside what it had, only times that a query
  answered with 213 brought.
\<close>

definition fromQueries :: "('s, 't) FTPSync \<Rightarrow> ('s, 't) FTPSync \<Rightarrow> bool" where
  "fromQueries st st' =
     (trace st' = trace st @ calls st st'
      \<and> (\<forall>f t. remoteFileModifiedTimes st' f = Some t \<longrightarrow>
            remoteFileModifiedTimes st f = Some t
            \<or> (GetModifiedDateTime f, Status 213) \<in> set (calls st st')))"

text \<open>
  How a run of FTPBackup or FTPRestore ends: its exit status, the lines it has printed
  and the server as it leaves it.
\<close>

definition ends :: "nat \<times> 's console \<Rightarrow> nat \<Rightarrow> string list \<Rightarrow> 's \<Rightarrow> bool" where
  "ends run code report s = (fst run = code \<and> cout (snd run) = report \<and> ftpServer (snd run) = s)"

text \<open>The sample server when \<open>putFiles\<close> transfers nothing.\<close>

definition sampleRefusing :: "(server, nat) CFTP" where
  "sampleRefusing = sampleFTP\<lparr>putFiles := (\<lambda>l fl s. (Inr [], s))\<rparr>"

text \<open>The sample server when \<open>disconnect\<close> throws.\<close>

definition sampleHangup :: "(server, nat) CFTP" where
  "sampleHangup = sampleFTP\<lparr>disconnect := (\<lambda>s. (Inl (CFTP_Exception ''Connection lost''), s))\<rparr>"

text \<open>
  An operation of a run that succeeded, by what the trace has of it: \<open>putFiles\<close>
  returned the remote name of every file it was given, \<open>putFile\<close> was answered with
  226, and a removal went through, which is an answer of 250 when a directory was
  removed: \<open>removeDirectory\<close> is called only on a \<open>deleteFile\<close> that was not answered
  with 250. No call threw.
\<close>

definition succeeded :: "ParamArgData \<Rightarrow> command \<times> reply \<Rightarrow> bool" where
  "succeeded a e =
     (case snd e of
        Threw x \<Rightarrow> False
      | Files got \<Rightarrow>
          (case fst e of
             PutFiles l fl \<Rightarrow> list_all (\<lambda>p. remoteName a p \<in> set got) fl
           | c \<Rightarrow> True)
      | Status n \<Rightarrow>
          (case fst e of
             PutFile r p \<Rightarrow> n = 226
           | RemoveDirectory f \<Rightarrow> n = 250
           | c \<Rightarrow> True)
      | other \<Rightarrow> True)"

text \<open>
  Modelled from the spec: the Remote Storage Port of section 4.4, whose server is not
  part of the sources. \<open>files\<close> is what a server state holds under the remote root,
  each path with a modification time; \<open>ok\<close> is a property of its states that the
  calls of a run keep. A reliable server changes what it holds only when it is told
  to: the calls that ask leave it as it is, and so do the making of the remote
  directory \<open>given\<close> on the command line and the change to it; after that change
  it reports \<open>root\<close> as the working directory, and the listing of \<open>root\<close> is the
  paths it holds; files put by \<open>putFiles\<close> are held afterwards, each with a time
  that is \<open>fresh\<close> for its path, and a path removed is held no more. Two laws are
  asked only for the paths that are \<open>plain\<close>, the remote copies of the files that are
  not directories: the query for the modification time of such a path is answered
  with 213 exactly when the path is held, and then gives its time; and such a path,
  when \<open>putFile\<close> is answered with 226, is held with a time that is fresh for it. For
  any other path, a directory for one, the query may fail or be answered in any way.
\<close>

definition unchanged :: "('s \<Rightarrow> bool) \<Rightarrow> ('s \<Rightarrow> string \<rightharpoonup> 't) \<Rightarrow> ('s \<Rightarrow> 'q \<times> 's) \<Rightarrow> bool" where
  "unchanged ok files act = (\<forall>s q s'. ok s \<longrightarrow> act s = (q, s') \<longrightarrow> ok s' \<and> files s' = files s)"

definition reportsDirectory :: "('s, 't) CFTP \<Rightarrow> ('s \<Rightarrow> bool) \<Rightarrow> string \<Rightarrow> string \<Rightarrow> bool" where
  "reportsDirectory ftp ok given root =
     (\<forall>s q s1 old d s2. ok s \<longrightarrow> changeWorkingDirectory ftp given s = (q, s1) \<longrightarrow>
        getCurrentWoringDirectory ftp old s1 = (Inr d, s2) \<longrightarrow> d = root)"

definition listsHeld ::
  "('s, 't) CFTP \<Rightarrow> ('s \<Rightarrow> bool) \<Rightarrow> ('s \<Rightarrow> string \<rightharpoonup> 't) \<Rightarrow> string \<Rightarrow> bool" where
  "listsHeld ftp ok files root =
     (\<forall>s l s'. ok s \<longrightarrow> listRemoteRecursive ftp root s = (Inr l, s') \<longrightarrow> set l = dom (files s))"

definition tellsTime ::
  "('s, 't) CFTP \<Rightarrow> ('s \<Rightarrow> bool) \<Rightarrow> ('s \<Rightarrow> string \<rightharpoonup> 't) \<Rightarrow> (string \<Rightarrow> bool) \<Rightarrow> bool" where
  "tellsTime ftp ok files plain =
     (\<forall>f s c t s'. ok s \<longrightarrow> plain f \<longrightarrow> getModifiedDateTime ftp f s = (Inr (c, t), s') \<longrightarrow>
        (c = 213 \<longrightarrow> files s f = Some t) \<and> (f \<in> dom (files s) \<longrightarrow> c = 213))"

definition putsFiles ::
  "('s, 't) CFTP \<Rightarrow> ('s \<Rightarrow> bool) \<Rightarrow> ('s \<Rightarrow> string \<rightharpoonup> 't) \<Rightarrow> (string \<Rightarrow> 't \<Rightarrow> bool)
     \<Rightarrow> bool" where
  "putsFiles ftp ok files fresh =
     (\<forall>l fl s q s'. ok s \<longrightarrow> putFiles ftp l fl s = (q, s') \<longrightarrow>
        ok s' \<and>
        (\<forall>got. q = Inr got \<longrightarrow>
           dom (files s') = dom (files s) \<union> set got
           \<and> (\<forall>f. f \<notin> set got \<longrightarrow> files s' f = files s f)
           \<and> (\<forall>f t. f \<in> set got \<longrightarrow> files s' f = Some t \<longrightarrow> fresh f t)))"

definition putsFile ::
  "('s, 't) CFTP \<Rightarrow> ('s \<Rightarrow> bool) \<Rightarrow> ('s \<Rightarrow> string \<rightharpoonup> 't) \<Rightarrow> (string \<Rightarrow> bool)
     \<Rightarrow> (string \<Rightarrow> 't \<Rightarrow> bool) \<Rightarrow> bool" where
  "putsFile ftp ok files plain fresh =
     (\<forall>r p s q s'. ok s \<longrightarrow> plain r \<longrightarrow> putFile ftp r p s = (q, s') \<longrightarrow>
        ok s' \<and> (q = Inr 226 \<longrightarrow> (\<exists>t. fresh r t \<and> files s' = (files s)(r \<mapsto> t))))"

definition deletesFile :: "('s, 't) CFTP \<Rightarrow> ('s \<Rightarrow> bool) \<Rightarrow> ('s \<Rightarrow> string \<rightharpoonup> 't) \<Rightarrow> bool" where
  "deletesFile ftp ok files =
     (\<forall>f s q s'. ok s \<longrightarrow> deleteFile ftp f s = (q, s') \<longrightarrow>
        ok s' \<and> (q = Inr 250 \<longrightarrow> files s' = (files s)(f := None))
        \<and> (\<forall>c. q = Inr c \<longrightarrow> c \<noteq> 250 \<longrightarrow> files s' = files s))"

definition removesDirectory ::
  "('s, 't) CFTP \<Rightarrow> ('s \<Rightarrow> bool) \<Rightarrow> ('s \<Rightarrow> string \<rightharpoonup> 't) \<Rightarrow> bool" where
  "removesDirectory ftp ok files =
     (\<forall>f s q s'. ok s \<longrightarrow> removeDirectory ftp f s = (q, s') \<longrightarrow>
        ok s' \<and> (q = Inr 250 \<longrightarrow> files s' = (files s)(f := None)))"

definition reliable ::
  "('s, 't) CFTP \<Rightarrow> ('s \<Rightarrow> bool) \<Rightarrow> ('s \<Rightarrow> string \<rightharpoonup> 't) \<Rightarrow> string \<Rightarrow> string
     \<Rightarrow> (string \<Rightarrow> bool) \<Rightarrow> (string \<Rightarrow> 't \<Rightarrow> bool) \<Rightarrow> bool" where
  "reliable ftp ok files given root plain fresh =
     (unchanged ok files (connect ftp)
      \<and> unchanged ok files (disconnect ftp)
      \<and> (\<forall>p. unchanged ok files (fileExists ftp p))
      \<and> unchanged ok files (makeRemotePath ftp given)
      \<and> unchanged ok files (changeWorkingDirectory ftp given)
      \<and> (\<forall>old. unchanged ok files (getCurrentWoringDirectory ftp old))
      \<and> (\<forall>d. unchanged ok files (listRemoteRecursive ftp d))
      \<and> (\<forall>f. unchanged ok files (getModifiedDateTime ftp f))
      \<and> reportsDirectory ftp ok given root
      \<and> listsHeld ftp ok files root
      \<and> tellsTime ftp ok files plain
      \<and> putsFiles ftp ok files fresh
      \<and> putsFile ftp ok files plain fresh
      \<and> deletesFile ftp ok files
      \<and> removesDirectory ftp ok files)"

text \<open>
  What the server holds mirrors the local list: every local path has its remote name
  there, every path there has its local name in the local list, and no local file is
  newer than its remote copy.
\<close>

definition mirrored ::
  "('s, 't) CFTP \<Rightarrow> CFile \<Rightarrow> ParamArgData \<Rightarrow> FileList \<Rightarrow> (string \<rightharpoonup> 't) \<Rightarrow> bool" where
  "mirrored ftp fs a local held =
     ((\<forall>p \<in> set local. \<exists>r. localFileToRemote a p = Inr r \<and> r \<in> dom held)
      \<and> (\<forall>f \<in> dom held. \<exists>l. remoteFileToLocal a f = Inr l \<and> l \<in> set local)
      \<and> (\<forall>p \<in> set local. isFile fs p \<longrightarrow>
            (\<forall>r t. localFileToRemote a p = Inr r \<longrightarrow> held r = Some t \<longrightarrow>
               \<not> DateTime_less ftp t (localTime ftp fs p))))"

text \<open>A later state whose server, if it was \<open>ok\<close>, still is and holds the same.\<close>

definition steady ::
  "('s \<Rightarrow> bool) \<Rightarrow> ('s \<Rightarrow> string \<rightharpoonup> 't) \<Rightarrow> ('s, 'z) process_scheme \<Rightarrow> ('s, 'z) process_scheme \<Rightarrow> bool" where
  "steady ok files st st' =
     (ok (ftpServer st) \<longrightarrow> ok (ftpServer st') \<and> files (ftpServer st') = files (ftpServer st))"

text \<open>
  A server that tells no time for a directory: the query for one of its \<open>folders\<close> is
  answered with 550. On it a tree with the directory \<open>/r/d\<close>, and beside it a local
  tree with the directory \<open>/l/d\<close>.
\<close>

definition sampleTreeFTP :: "(server, nat) CFTP" where
  "sampleTreeFTP =
     sampleFTP\<lparr>getModifiedDateTime := (\<lambda>p s.
        if p \<in> set (folders s) then (Inr (550, 0), s) else getModifiedDateTime sampleFTP p s)\<rparr>"

definition sampleTree :: server where
  "sampleTree =
     sampleServer\<lparr>listing := [(''/r/a'', 100), (''/r/x'', 100), (''/r/d'', 100)],
                  folders := [''/r'', ''/r/d''], mkdirs := False\<rparr>"

definition sampleTreeFiles :: CFile where
  "sampleTreeFiles =
     \<lparr>listLocalRecursive = (\<lambda>d. Inr [''/l/a'', ''/l/b'', ''/l/d'']),
      isFile = (\<lambda>p. p \<noteq> ''/l/d''),
      lastWriteTime = (\<lambda>p. if p = ''/l/a'' then 200 else 50)\<rparr>"

definition sampleTreeRun :: "(nat \<times> (server, nat) FTPSync) option" where
  "sampleTreeRun = syncMain sampleTreeFTP sampleTreeFiles sampleArgs sampleTree"

text \<open>
  That server as a reliable one: what it holds is its listing; its states are those
  that answer the query for a modification time, whose clock is not behind the local
  files, and whose folders are those of the tree; the plain paths are all but these
  folders; and a time is fresh for a path when no local file is newer.
\<close>

definition sampleHeld :: "server \<Rightarrow> string \<rightharpoonup> nat" where
  "sampleHeld s = map_of (listing s)"

definition sampleOk :: "server \<Rightarrow> bool" where
  "sampleOk s =
     (mdtm s \<and> 200 \<le> clock s \<and> \<not> mkdirs s \<and> set (folders s) \<subseteq> {''/r'', ''/r/d''})"

definition samplePlain :: "string \<Rightarrow> bool" where
  "samplePlain p = (p \<notin> {''/r'', ''/r/d''})"

definition sampleFresh :: "string \<Rightarrow> nat \<Rightarrow> bool" where
  "sampleFresh p t = (200 \<le> t)"

text \<open>The sample server with a clock behind the time of the local file \<open>/l/a\<close>.\<close>

definition sampleSlow :: server where
  "sampleSlow = sampleServer\<lparr>clock := 150\<rparr>"

definition sampleSlowRun :: "(nat \<times> (server, nat) FTPSync) option" where
  "sampleSlowRun = syncMain sampleFTP sampleFiles sampleArgs sampleSlow"

definition sampleParsed :: ParamArgData where
  "sampleParsed = sampleArgs\<lparr>localDirectory := ''/l/''\<rparr>"

section \<open>Properties\<close>

subsection \<open>Strings\<close>

lemma rfind_from_last: "rfind_from c (xs @ [c]) i found = Some (i + length xs)"
  by (induction xs arbitrary: i found) simp_all

lemma rfind_ends: "rfind (xs @ [c]) c = Some (length xs)"
  by (simp add: rfind_def rfind_from_last)

lemma procCmdLine_local:
  assumes "procCmdLine args = Some a"
  shows "\<exists>stem. localDirectory a = stem @ [CHR ''/'']"
proof (cases "last (localDirectory args) = CHR ''/''")
  case True
  with assms have ne: "localDirectory args \<noteq> []" and eq: "a = args"
    by (auto simp: procCmdLine_def split: if_splits)
  from ne True have "localDirectory args = butlast (localDirectory args) @ [CHR ''/'']"
    by (metis append_butlast_last_id)
  with eq show ?thesis by blast
next
  case False
  with assms have "localDirectory a = localDirectory args @ [CHR ''/'']"
    by (auto simp: procCmdLine_def split: if_splits)
  then show ?thesis by blast
qed

lemma localFileToRemote_under_root:
  assumes "localDirectory a = stem @ [CHR ''/'']"
  shows "localFileToRemote a (localDirectory a @ rest)
           = Inr (remoteDirectory a @ CHR ''/'' # rest)"
  using assms by (simp add: localFileToRemote_def substr_def rfind_ends)

lemma remoteFileToLocal_under_root:
  "remoteFileToLocal a (remoteDirectory a @ c # rest)
     = Inr (localDirectory a @ rest)"
  by (simp add: remoteFileToLocal_def substr_def)

subsection \<open>Actions\<close>

lemma bindM_cases:
  assumes "bindM m f st = (r, st'')"
  obtains (thrown) e where "m st = (Inl e, st'')" and "r = Inl e"
        | (went) x st' where "m st = (Inr x, st')" and "f x st' = (r, st'')"
  using assms by (auto simp: bindM_def split: prod.splits sum.splits)

lemma returnM_eq [simp]: "returnM x st = (r, st') \<longleftrightarrow> r = Inr x \<and> st' = st"
  by (auto simp: returnM_def)

lemma throwM_eq [simp]: "throwM e st = (r, st') \<longleftrightarrow> r = Inl e \<and> st' = st"
  by (auto simp: throwM_def)

lemma call_cases:
  assumes "call c shown act st = (r, st')"
  obtains s' where "act (ftpServer st) = (r, s')"
    and "st' = st\<lparr>ftpServer := s', trace := trace st @ [(c, answer shown r)]\<rparr>"
  using assms by (auto simp: call_def split: prod.splits)

lemma callLocal_cases:
  assumes "callLocal c shown v st = (r, st')"
  obtains "v = r" and "st' = st\<lparr>trace := trace st @ [(c, answer shown r)]\<rparr>"
  using assms by (auto simp: callLocal_def)

lemma forEach_Cons_cases:
  assumes "forEach body (x # xs) st = (r, st'')"
  obtains (thrown) e where "body x st = (Inl e, st'')" and "r = Inl e"
        | (went) st' where "body x st = (Inr (), st')" and "forEach body xs st' = (r, st'')"
  using assms by (auto split: prod.splits sum.splits)

subsection \<open>Traces\<close>

lemma calls_same [simp]: "calls st st = []"
  by (simp add: calls_def)

lemma calls_append: "trace st' = trace st @ new \<Longrightarrow> calls st st' = new"
  by (simp add: calls_def)

lemma issued_append: "trace st' = trace st @ new \<Longrightarrow> issued st st' = map fst new"
  by (simp add: issued_def commands_def calls_append)

lemma issued_same [simp]: "issued st st = []"
  by (simp add: issued_def commands_def)

lemma grows_trans:
  assumes "trace st1 = trace st @ calls st st1" and "trace st2 = trace st1 @ calls st1 st2"
  shows "trace st2 = trace st @ calls st st2"
    and "calls st st2 = calls st st1 @ calls st1 st2"
    and "issued st st2 = issued st st1 @ issued st1 st2"
proof -
  from assms have "trace st2 = trace st @ calls st st1 @ calls st1 st2" by simp
  then show 2: "calls st st2 = calls st st1 @ calls st1 st2" by (rule calls_append)
  with assms show "trace st2 = trace st @ calls st st2" by simp
  from 2 show "issued st st2 = issued st st1 @ issued st1 st2"
    by (simp add: issued_def commands_def)
qed

text \<open>A loop whose body keeps an invariant and issues only commands of one kind.\<close>

lemma forEach_effect:
  assumes body: "\<And>x st r st'. x \<in> set xs \<Longrightarrow> I st \<Longrightarrow> body x st = (r, st') \<Longrightarrow>
            I st' \<and> trace st' = trace st @ calls st st' \<and> (\<forall>c \<in> set (issued st st'). P c)"
    and "I st" and "forEach body xs st = (r, st')"
  shows "I st' \<and> trace st' = trace st @ calls st st' \<and> (\<forall>c \<in> set (issued st st'). P c)"
  using assms
proof (induction xs arbitrary: st)
  case Nil
  then show ?case by simp
next
  case (Cons x xs)
  from Cons.prems(3) show ?case
  proof (cases rule: forEach_Cons_cases)
    case (thrown e)
    with Cons.prems(1) [of x st "Inl e" st'] Cons.prems(2) show ?thesis by simp
  next
    case (went st1)
    with Cons.prems(1) [of x st "Inr ()" st1] Cons.prems(2)
    have 1: "I st1" "trace st1 = trace st @ calls st st1" "\<forall>c \<in> set (issued st st1). P c"
      by simp_all
    have "I st' \<and> trace st' = trace st1 @ calls st1 st' \<and> (\<forall>c \<in> set (issued st1 st'). P c)"
    proof (rule Cons.IH [OF _ 1(1) went(2)])
      fix y st r st'
      assume "y \<in> set xs" and "I st" and "body y st = (r, st')"
      then show "I st' \<and> trace st' = trace st @ calls st st' \<and> (\<forall>c \<in> set (issued st st'). P c)"
        using Cons.prems(1) [of y st r st'] by simp
    qed
    with 1 grows_trans [of st1 st st'] show ?thesis by auto
  qed
qed

subsection \<open>Relations kept by actions\<close>

lemma keepsI: "(\<And>st r st'. m st = (r, st') \<Longrightarrow> R st st') \<Longrightarrow> keeps R m"
  by (simp add: keeps_def)

lemma keepsD: "keeps R m \<Longrightarrow> m st = (r, st') \<Longrightarrow> R st st'"
  by (simp add: keeps_def)

lemma keeps_returnM: "reflp R \<Longrightarrow> keeps R (returnM x)"
  by (auto simp: keeps_def reflp_def)

lemma keeps_bindM:
  assumes "transp R" and "keeps R m" and "\<And>x. keeps R (f x)"
  shows "keeps R (bindM m f)"
proof (rule keepsI)
  fix st r st''
  assume "bindM m f st = (r, st'')"
  then show "R st st''"
  proof (cases rule: bindM_cases)
    case (thrown e)
    with assms(2) show ?thesis by (auto dest: keepsD)
  next
    case (went x st')
    with assms(2,3) have "R st st'" and "R st' st''" by (auto dest: keepsD)
    with assms(1) show ?thesis by (blast dest: transpD)
  qed
qed

lemma keeps_forEach:
  assumes "reflp R" and "transp R" and "\<And>x. x \<in> set xs \<Longrightarrow> keeps R (body x)"
  shows "keeps R (forEach body xs)"
  using assms(3)
proof (induction xs)
  case Nil
  from assms(1) show ?case by (auto simp: keeps_def reflp_def)
next
  case (Cons x xs)
  then have step: "keeps R (body x)" and rest: "keeps R (forEach body xs)" by simp_all
  show ?case
  proof (rule keepsI)
    fix st r st''
    assume "forEach body (x # xs) st = (r, st'')"
    then show "R st st''"
    proof (cases rule: forEach_Cons_cases)
      case (thrown e)
      with step show ?thesis by (auto dest: keepsD)
    next
      case (went st')
      with step rest have "R st st'" and "R st' st''" by (auto dest: keepsD)
      with assms(2) show ?thesis by (blast dest: transpD)
    qed
  qed
qed

lemma quiet_refl: "reflp quiet"
  by (simp add: reflp_def quiet_def)

lemma quiet_trans: "transp quiet"
proof (rule transpI)
  fix x y z :: "('a, 'b) process_scheme"
  assume "quiet x y" and "quiet y z"
  then show "quiet x z"
    using grows_trans [of y x z] by (auto simp: quiet_def)
qed

lemma settled_refl: "reflp settled"
  by (simp add: reflp_def settled_def)

lemma settled_trans: "transp settled"
proof (rule transpI)
  fix x y z :: "('a, 'b) FTPSync"
  assume "settled x y" and "settled y z"
  then show "settled x z"
    using grows_trans [of y x z] by (auto simp: settled_def)
qed

lemma call_quiet: "\<not> operation c \<Longrightarrow> keeps quiet (call c shown act)"
  by (auto simp: keeps_def quiet_def calls_append issued_append elim!: call_cases)

lemma callLocal_quiet: "\<not> operation c \<Longrightarrow> keeps quiet (callLocal c shown v)"
  by (auto simp: keeps_def quiet_def calls_append issued_append elim!: callLocal_cases)

lemma connectServer_quiet: "keeps quiet (connectServer ftp)"
  unfolding connectServer_def
  by (auto simp: keeps_def quiet_def calls_append issued_append elim!: bindM_cases call_cases split: if_splits)

lemma createRemoteDirectory_quiet: "keeps quiet (createRemoteDirectory ftp)"
  unfolding createRemoteDirectory_def
  by (auto simp: keeps_def quiet_def calls_append issued_append elim!: bindM_cases call_cases split: if_splits)

lemma enterRemoteDirectory_quiet: "keeps quiet (enterRemoteDirectory ftp)"
  unfolding enterRemoteDirectory_def
  by (auto simp: keeps_def quiet_def calls_append issued_append elim!: bindM_cases call_cases split: if_splits)

lemma getFileLists_quiet: "keeps quiet (getFileLists ftp fs)"
  unfolding getFileLists_def
  by (auto simp: keeps_def quiet_def calls_append issued_append elim!: bindM_cases call_cases callLocal_cases split: if_splits)

lemma setUp_quiet: "keeps quiet (setUp ftp)"
  unfolding setUp_def
  by (intro keeps_bindM quiet_trans connectServer_quiet createRemoteDirectory_quiet enterRemoteDirectory_quiet)

subsection \<open>The passes remove only what is gone locally\<close>

lemma noteNewFile_settled: "keeps settled (noteNewFile file)"
  unfolding noteNewFile_def
  by (auto simp: keeps_def settled_def calls_def issued_def commands_def split: sum.splits if_splits)

lemma removeIfDeleted_settled: "keeps settled (removeIfDeleted ftp file)"
  unfolding removeIfDeleted_def
  by (auto simp: keeps_def settled_def isOrphan_def calls_def issued_def commands_def
      elim!: bindM_cases call_cases split: sum.splits if_splits)

lemma noteModifiedTime_settled: "keeps settled (noteModifiedTime ftp file)"
  unfolding noteModifiedTime_def
  by (auto simp: keeps_def settled_def calls_def issued_def commands_def
      elim!: bindM_cases call_cases split: if_splits)

lemma copyIfUpdated_settled: "keeps settled (copyIfUpdated ftp fs file)"
  unfolding copyIfUpdated_def
  by (auto simp: keeps_def settled_def calls_def issued_def commands_def Let_def
      elim!: bindM_cases call_cases split: sum.splits if_splits prod.splits)

lemma settled_step:
  assumes "settled st st0" and "keeps settled m" and "m st0 = (r, st')"
  shows "settled st st'"
  using assms settled_trans by (blast dest: keepsD transpD)

lemma pass1_settled: "keeps settled (pass1 ftp)"
proof (rule keepsI)
  fix st st' :: "('a, 'b) FTPSync" and r :: "error + unit"
  let ?st0 = "st\<lparr>newFiles := [], newFilesTransfered := []\<rparr>"
  have loop: "keeps settled (forEach noteNewFile (localFiles st))"
    by (intro keeps_forEach settled_refl settled_trans noteNewFile_settled)
  have rest: "keeps settled (\<lambda>st'.
       if newFiles st' \<noteq> []
       then bindM (call (PutFiles (localDirectory (argData st')) (newFiles st')) Files
                     (putFiles ftp (localDirectory (argData st')) (newFiles st'))) (\<lambda>sent st''.
              returnM () (st''\<lparr>newFilesTransfered := sent,
                                 remoteFiles := remoteFiles st'' @ sent\<rparr>)) st'
       else returnM () st')"
    by (auto simp: keeps_def settled_def calls_def issued_def commands_def
        elim!: bindM_cases call_cases split: if_splits)
  assume "pass1 ftp st = (r, st')"
  then have run: "bindM (forEach noteNewFile (localFiles st)) (\<lambda>u st'.
       if newFiles st' \<noteq> []
       then bindM (call (PutFiles (localDirectory (argData st')) (newFiles st')) Files
                     (putFiles ftp (localDirectory (argData st')) (newFiles st'))) (\<lambda>sent st''.
              returnM () (st''\<lparr>newFilesTransfered := sent,
                                 remoteFiles := remoteFiles st'' @ sent\<rparr>)) st'
       else returnM () st') ?st0 = (r, st')"
    by (simp add: pass1_def)
  have "settled st ?st0"
    by (simp add: settled_def calls_def issued_def commands_def)
  then show "settled st st'"
    using keeps_bindM [OF settled_trans loop rest] run by (rule settled_step)
qed

lemma pass2_settled: "keeps settled (pass2 ftp)"
proof (rule keepsI)
  fix st st' :: "('a, 'b) FTPSync" and r :: "error + unit"
  assume "pass2 ftp st = (r, st')"
  moreover have "keeps settled (forEach (removeIfDeleted ftp) (remoteFiles st))"
    by (intro keeps_forEach settled_refl settled_trans removeIfDeleted_settled)
  ultimately show "settled st st'"
    by (auto simp: pass2_def dest: keepsD)
qed

lemma pass3_settled: "keeps settled (pass3 ftp fs)"
proof -
  have "keeps settled (fillModifiedTimes ftp)"
  proof (rule keepsI)
    fix st st' :: "('a, 'b) FTPSync" and r :: "error + unit"
    assume "fillModifiedTimes ftp st = (r, st')"
    then have run: "forEach (noteModifiedTime ftp) (remoteFiles st)
        (st\<lparr>remoteFileModifiedTimes := Map.empty\<rparr>) = (r, st')"
      by (simp add: fillModifiedTimes_def)
    have loop: "keeps settled (forEach (noteModifiedTime ftp) (remoteFiles st))"
      by (intro keeps_forEach settled_refl settled_trans noteModifiedTime_settled)
    have "settled st (st\<lparr>remoteFileModifiedTimes := Map.empty\<rparr>)"
      by (simp add: settled_def calls_def issued_def commands_def)
    then show "settled st st'"
      using loop run by (rule settled_step)
  qed
  moreover have "keeps settled (copyUpdated ftp fs)"
  proof (rule keepsI)
    fix st st' :: "('a, 'b) FTPSync" and r :: "error + unit"
    assume "copyUpdated ftp fs st = (r, st')"
    moreover have "keeps settled (forEach (copyIfUpdated ftp fs) (localFiles st))"
      by (intro keeps_forEach settled_refl settled_trans copyIfUpdated_settled)
    ultimately show "settled st st'"
      by (auto simp: copyUpdated_def dest: keepsD)
  qed
  ultimately show ?thesis
    unfolding pass3_def by (intro keeps_bindM settled_trans)
qed

lemma passes_settled: "keeps settled (passes ftp fs)"
  unfolding passes_def
  by (intro keeps_bindM settled_trans pass1_settled pass2_settled pass3_settled)

lemma disconnect_settled:
  "keeps settled (bindM (call Disconnect Status (disconnect ftp)) (\<lambda>status. returnM ()))"
  by (auto simp: keeps_def settled_def calls_def issued_def commands_def elim!: bindM_cases call_cases)

lemma grows_refl: "reflp grows"
  by (simp add: reflp_def grows_def)




lemma afterLists_settled:
  "keeps settled (bindM (passes ftp fs) (\<lambda>u.
     bindM (call Disconnect Status (disconnect ftp)) (\<lambda>status. returnM ())))"
  by (intro keeps_bindM settled_trans passes_settled disconnect_settled)


lemma getFileLists_argData:
  "getFileLists ftp fs st = (r, st') \<Longrightarrow> argData st' = argData st"
  unfolding getFileLists_def
  by (auto elim!: bindM_cases call_cases callLocal_cases)

lemma reconcile_argData:
  assumes "reconcile ftp fs st = (r, st')"
  shows "argData st' = argData st"
  using assms unfolding reconcile_def
proof (cases rule: bindM_cases)
  case (thrown e)
  then show ?thesis by (simp add: getFileLists_argData)
next
  case (went x st1)
  from went(2) afterLists_settled have "settled st1 st'" by (rule keepsD [rotated])
  with went(1) show ?thesis by (simp add: settled_def getFileLists_argData)
qed

lemma setUp_roots:
  assumes "setUp ftp st = (Inr (), st')"
  shows "localDirectory (argData st') = localDirectory (argData st)
       \<and> last (trace st') = (GetCurrentWoringDirectory, Directory (remoteDirectory (argData st')))"
  using assms unfolding setUp_def connectServer_def createRemoteDirectory_def enterRemoteDirectory_def
  by (auto simp: answer_def elim!: bindM_cases call_cases split: if_splits)

lemma syncMain_eq:
  assumes "procCmdLine args = Some parsed"
  shows "syncMain ftp fs args s = Some (code, st)
     \<longleftrightarrow> (\<exists>r. syncBody ftp fs (syncStart parsed s) = (r, st) \<and> code = exitStatus r)"
  using assms by (auto simp: syncMain_def split: prod.splits)

lemma removal_operation: "removal c = Some f \<Longrightarrow> operation c"
  by (cases c) simp_all

lemma quiet_from_start:
  assumes "trace st0 = []" and "quiet st0 st" and "c \<in> set (commands (trace st))"
  shows "removal c = None"
proof -
  from assms(1,2) have "issued st0 st = commands (trace st)"
    by (simp add: quiet_def issued_def calls_def)
  with assms(2,3) have "\<not> operation c" by (simp add: quiet_def)
  then show ?thesis by (cases "removal c") (auto dest: removal_operation)
qed




lemma noteNewFile_loop:
  assumes "forEach noteNewFile files st = (Inr (), st')"
  shows "st' = st\<lparr>newFiles := newFiles st @ filter (isNew (argData st) (remoteFiles st)) files\<rparr>"
  using assms
proof (induction files arbitrary: st)
  case Nil
  then show ?case by simp
next
  case (Cons f files)
  from Cons.prems show ?case
  proof (cases rule: forEach_Cons_cases)
    case (thrown e)
    then show ?thesis by simp
  next
    case (went st1)
    from went(1) have 1: "st1 = (if isNew (argData st) (remoteFiles st) f
        then st\<lparr>newFiles := newFiles st @ [f]\<rparr> else st)"
      by (auto simp: noteNewFile_def isNew_def split: sum.splits if_splits)
    from Cons.IH [OF went(2)] 1 show ?thesis by simp
  qed
qed







lemma fromQueries_refl: "reflp fromQueries"
  by (simp add: reflp_def fromQueries_def)

lemma fromQueries_trans: "transp fromQueries"
proof (rule transpI)
  fix x y z :: "('a, 'b) FTPSync"
  assume xy: "fromQueries x y" and yz: "fromQueries y z"
  then have "trace z = trace x @ calls x z" and "calls x z = calls x y @ calls y z"
    using grows_trans [of y x z] by (simp_all add: fromQueries_def)
  with xy yz show "fromQueries x z"
    unfolding fromQueries_def by (metis Un_iff set_append)
qed

lemma noteModifiedTime_fromQueries: "keeps fromQueries (noteModifiedTime ftp f)"
  unfolding noteModifiedTime_def
  by (auto simp: keeps_def fromQueries_def calls_def answer_def
      elim!: bindM_cases call_cases split: if_splits)

lemma oracle_as_built:
  assumes "fillModifiedTimes ftp st = (r, st')" and "remoteFileModifiedTimes st' f = Some t"
  shows "(GetModifiedDateTime f, Status 213) \<in> set (calls st st')"
proof -
  let ?st0 = "st\<lparr>remoteFileModifiedTimes := Map.empty\<rparr>"
  have "keeps fromQueries (forEach (noteModifiedTime ftp) (remoteFiles st))"
    by (intro keeps_forEach fromQueries_refl fromQueries_trans noteModifiedTime_fromQueries)
  with assms(1) have "fromQueries ?st0 st'"
    by (auto simp: fillModifiedTimes_def dest: keepsD)
  with assms(2) show ?thesis
    by (auto simp: fromQueries_def calls_def)
qed

lemma exitStatus_cases: "exitStatus r = EXIT_SUCCESS \<longleftrightarrow> r = Inr ()"
  by (cases r) (simp_all add: exitStatus_def EXIT_SUCCESS_def EXIT_FAILURE_def)

lemmas console_defs = backupMain_def restoreMain_def backupBody_def restoreBody_def
  consoleStart_def printLines_def connectServer_def bindM_def returnM_def throwM_def call_def
  callLocal_def answer_def exitStatus_def EXIT_SUCCESS_def EXIT_FAILURE_def ends_def

subsection \<open>A reliable server\<close>

lemma unchangedD:
  "unchanged ok files act \<Longrightarrow> ok s \<Longrightarrow> act s = (q, s') \<Longrightarrow> ok s' \<and> files s' = files s"
  by (simp add: unchanged_def)

lemma reliable_quiet:
  assumes "reliable ftp ok files given root plain fresh"
  shows "unchanged ok files (connect ftp)" "unchanged ok files (disconnect ftp)"
    "unchanged ok files (fileExists ftp p)" "unchanged ok files (makeRemotePath ftp given)"
    "unchanged ok files (changeWorkingDirectory ftp given)"
    "unchanged ok files (getCurrentWoringDirectory ftp old)"
    "unchanged ok files (listRemoteRecursive ftp d)"
    "unchanged ok files (getModifiedDateTime ftp f)"
  using assms by (simp_all add: reliable_def)

lemma reliable_directory:
  assumes "reliable ftp ok files given root plain fresh" and "ok s"
    and "changeWorkingDirectory ftp given s = (q, s1)"
    and "getCurrentWoringDirectory ftp old s1 = (Inr d, s2)"
  shows "d = root"
proof -
  from assms(1) have "reportsDirectory ftp ok given root" by (simp add: reliable_def)
  with assms(2-) show ?thesis unfolding reportsDirectory_def by blast
qed

lemma reliable_listing:
  assumes "reliable ftp ok files given root plain fresh" and "ok s"
    and "listRemoteRecursive ftp root s = (Inr l, s')"
  shows "set l = dom (files s)"
proof -
  from assms(1) have "listsHeld ftp ok files root" by (simp add: reliable_def)
  with assms(2-) show ?thesis unfolding listsHeld_def by blast
qed

lemma reliable_time:
  assumes "reliable ftp ok files given root plain fresh" and "ok s"
    and "plain f" and "getModifiedDateTime ftp f s = (Inr (c, t), s')"
  shows "c = 213 \<Longrightarrow> files s f = Some t" and "f \<in> dom (files s) \<Longrightarrow> c = 213"
proof -
  from assms(1) have "tellsTime ftp ok files plain" by (simp add: reliable_def)
  with assms(2-) have *: "(c = 213 \<longrightarrow> files s f = Some t) \<and> (f \<in> dom (files s) \<longrightarrow> c = 213)"
    unfolding tellsTime_def by blast
  from * show "c = 213 \<Longrightarrow> files s f = Some t" by simp
  from * show "f \<in> dom (files s) \<Longrightarrow> c = 213" by simp
qed

lemma reliable_putFiles:
  assumes "reliable ftp ok files given root plain fresh" and "ok s"
    and "putFiles ftp l fl s = (q, s')"
  shows "ok s'"
    and "q = Inr got \<Longrightarrow> dom (files s') = dom (files s) \<union> set got"
    and "q = Inr got \<Longrightarrow> f \<notin> set got \<Longrightarrow> files s' f = files s f"
    and "q = Inr got \<Longrightarrow> f \<in> set got \<Longrightarrow> files s' f = Some t \<Longrightarrow> fresh f t"
proof -
  from assms(1) have "putsFiles ftp ok files fresh" by (simp add: reliable_def)
  with assms(2-) have *: "ok s' \<and>
        (\<forall>got. q = Inr got \<longrightarrow>
           dom (files s') = dom (files s) \<union> set got
           \<and> (\<forall>f. f \<notin> set got \<longrightarrow> files s' f = files s f)
           \<and> (\<forall>f t. f \<in> set got \<longrightarrow> files s' f = Some t \<longrightarrow> fresh f t))"
    unfolding putsFiles_def by blast
  from * show "ok s'" by simp
  from * show "q = Inr got \<Longrightarrow> dom (files s') = dom (files s) \<union> set got" by simp
  from * show "q = Inr got \<Longrightarrow> f \<notin> set got \<Longrightarrow> files s' f = files s f" by simp
  from * show "q = Inr got \<Longrightarrow> f \<in> set got \<Longrightarrow> files s' f = Some t \<Longrightarrow> fresh f t" by simp
qed

lemma reliable_putFile:
  assumes "reliable ftp ok files given root plain fresh" and "ok s"
    and "plain r" and "putFile ftp r p s = (q, s')"
  shows "ok s'" and "q = Inr 226 \<Longrightarrow> \<exists>t. fresh r t \<and> files s' = (files s)(r \<mapsto> t)"
proof -
  from assms(1) have "putsFile ftp ok files plain fresh" by (simp add: reliable_def)
  with assms(2-) have *: "ok s' \<and> (q = Inr 226 \<longrightarrow> (\<exists>t. fresh r t \<and> files s' = (files s)(r \<mapsto> t)))"
    unfolding putsFile_def by blast
  from * show "ok s'" by simp
  from * show "q = Inr 226 \<Longrightarrow> \<exists>t. fresh r t \<and> files s' = (files s)(r \<mapsto> t)" by simp
qed

lemma reliable_deleteFile:
  assumes "reliable ftp ok files given root plain fresh" and "ok s"
    and "deleteFile ftp f s = (q, s')"
  shows "ok s'" and "q = Inr 250 \<Longrightarrow> files s' = (files s)(f := None)"
    and "q = Inr c \<Longrightarrow> c \<noteq> 250 \<Longrightarrow> files s' = files s"
proof -
  from assms(1) have "deletesFile ftp ok files" by (simp add: reliable_def)
  with assms(2-) have *: "ok s' \<and> (q = Inr 250 \<longrightarrow> files s' = (files s)(f := None))
        \<and> (\<forall>c. q = Inr c \<longrightarrow> c \<noteq> 250 \<longrightarrow> files s' = files s)"
    unfolding deletesFile_def by blast
  from * show "ok s'" by simp
  from * show "q = Inr 250 \<Longrightarrow> files s' = (files s)(f := None)" by simp
  from * show "q = Inr c \<Longrightarrow> c \<noteq> 250 \<Longrightarrow> files s' = files s" by simp
qed

lemma reliable_removeDirectory:
  assumes "reliable ftp ok files given root plain fresh" and "ok s"
    and "removeDirectory ftp f s = (q, s')"
  shows "ok s'" and "q = Inr 250 \<Longrightarrow> files s' = (files s)(f := None)"
proof -
  from assms(1) have "removesDirectory ftp ok files" by (simp add: reliable_def)
  with assms(2-) have *: "ok s' \<and> (q = Inr 250 \<longrightarrow> files s' = (files s)(f := None))"
    unfolding removesDirectory_def by blast
  from * show "ok s'" by simp
  from * show "q = Inr 250 \<Longrightarrow> files s' = (files s)(f := None)" by simp
qed

lemma steady_refl: "reflp (steady ok files)"
  by (simp add: reflp_def steady_def)

lemma steady_trans: "transp (steady ok files)"
  by (auto simp: transp_def steady_def)

lemma keeps_throwM: "reflp R \<Longrightarrow> keeps R (throwM e)"
  by (auto simp: keeps_def reflp_def)

lemma keeps_if: "(b \<Longrightarrow> keeps R m) \<Longrightarrow> (\<not> b \<Longrightarrow> keeps R n) \<Longrightarrow> keeps R (if b then m else n)"
  by simp

lemma call_steady:
  assumes "unchanged ok files act"
  shows "keeps (steady ok files) (call c shown act)"
  using assms by (auto simp: keeps_def steady_def elim!: call_cases dest: unchangedD)

lemma connectServer_steady:
  assumes "reliable ftp ok files given root plain fresh"
  shows "keeps (steady ok files) (connectServer ftp)"
proof (rule keepsI)
  fix st st' :: "('a, 'c) process_scheme" and r :: "error + unit"
  assume "connectServer ftp st = (r, st')"
  then show "steady ok files st st'"
    unfolding connectServer_def
    by (auto simp: steady_def elim!: bindM_cases call_cases
        dest: unchangedD [OF reliable_quiet(1) [OF assms]] split: if_splits)
qed

lemma createRemoteDirectory_steady:
  fixes st st' :: "('s, 't) FTPSync"
  assumes rel: "reliable ftp ok files (remoteDirectory (argData st)) root plain fresh"
    and run: "createRemoteDirectory ftp st = (r, st')"
  shows "steady ok files st st'"
proof -
  let ?R = "remoteDirectory (argData st)"
  note fe = call_steady [OF reliable_quiet(3) [OF rel, of ?R], of "FileExists ?R" Flag]
  note mk = call_steady [OF reliable_quiet(4) [OF rel], of "MakeRemotePath ?R" "\<lambda>u. Returned"]
  have "keeps (steady ok files)
      (bindM (call (FileExists ?R) Flag (fileExists ftp ?R)) (\<lambda>found.
       if \<not> found
       then bindM (call (MakeRemotePath ?R) (\<lambda>u. Returned) (makeRemotePath ftp ?R)) (\<lambda>u.
              bindM (call (FileExists ?R) Flag (fileExists ftp ?R)) (\<lambda>found.
                if \<not> found
                then throwM (CFTP_Exception (''Remote FTP server directory '' @ ?R @ '' could not created.''))
                else returnM ()))
       else returnM ()))"
    by (intro keeps_bindM keeps_if keeps_returnM keeps_throwM steady_trans steady_refl fe mk)
  then show ?thesis using run
    unfolding createRemoteDirectory_def by (rule keepsD)
qed

lemma call_frame:
  assumes "call c shown act st = (r, st')"
  shows "argData st' = argData st \<and> localFiles st' = localFiles st \<and> remoteFiles st' = remoteFiles st
       \<and> newFiles st' = newFiles st \<and> newFilesTransfered st' = newFilesTransfered st
       \<and> remoteFileModifiedTimes st' = remoteFileModifiedTimes st"
  using assms by (auto elim!: call_cases)

lemma enterRemoteDirectory_effect:
  assumes rel: "reliable ftp ok files (remoteDirectory (argData st)) root plain fresh"
    and ok: "ok (ftpServer st)"
    and run: "enterRemoteDirectory ftp st = (r, st')"
  shows "ok (ftpServer st') \<and> files (ftpServer st') = files (ftpServer st)"
    and "r = Inr () \<Longrightarrow>
          argData st' = (argData st)\<lparr>remoteDirectory := root\<rparr>"
proof -
  let ?R = "remoteDirectory (argData st)"
  from run have "bindM (call (ChangeWorkingDirectory ?R) Status (changeWorkingDirectory ftp ?R))
      (\<lambda>status. bindM (call GetCurrentWoringDirectory Directory (getCurrentWoringDirectory ftp ?R))
        (\<lambda>dir st'. returnM () (st'\<lparr>argData := (argData st')\<lparr>remoteDirectory := dir\<rparr>\<rparr>))) st = (r, st')"
    by (simp add: enterRemoteDirectory_def)
  then have "(ok (ftpServer st') \<and> files (ftpServer st') = files (ftpServer st))
      \<and> (r = Inr () \<longrightarrow>
          argData st' = (argData st)\<lparr>remoteDirectory := root\<rparr>)"
  proof (cases rule: bindM_cases)
    case (thrown e)
    with ok unchangedD [OF reliable_quiet(5) [OF rel]] show ?thesis
      by (auto elim!: call_cases)
  next
    case (went status st1)
    from went(1) obtain s1 where cd: "changeWorkingDirectory ftp ?R (ftpServer st) = (Inr status, s1)"
      and st1: "st1 = st\<lparr>ftpServer := s1, trace := trace st @ [(ChangeWorkingDirectory ?R, answer Status (Inr status))]\<rparr>"
      by (auto elim!: call_cases)
    from unchangedD [OF reliable_quiet(5) [OF rel] ok cd]
    have ok1: "ok s1" and f1: "files s1 = files (ftpServer st)" by simp_all
    from went(2) show ?thesis
    proof (cases rule: bindM_cases)
      case (thrown e)
      with st1 ok1 f1 unchangedD [OF reliable_quiet(6) [OF rel, of ?R], of s1] show ?thesis
        by (auto elim!: call_cases)
    next
      case (went dir st2)
      from went(1) st1 obtain s2 where pwd: "getCurrentWoringDirectory ftp ?R s1 = (Inr dir, s2)"
        and st2: "st2 = st1\<lparr>ftpServer := s2, trace := trace st1 @ [(GetCurrentWoringDirectory, answer Directory (Inr dir))]\<rparr>"
        by (auto elim!: call_cases)
      from unchangedD [OF reliable_quiet(6) [OF rel] ok1 pwd] f1
      have "ok s2" and "files s2 = files (ftpServer st)" by simp_all
      moreover from reliable_directory [OF rel ok cd pwd] have "dir = root" .
      ultimately show ?thesis using went(2) st1 st2 by auto
    qed
  qed
  then show "ok (ftpServer st') \<and> files (ftpServer st') = files (ftpServer st)"
    and "r = Inr () \<Longrightarrow> argData st' = (argData st)\<lparr>remoteDirectory := root\<rparr>"
    by simp_all
qed

lemma connectServer_argData: "connectServer ftp st = (r, st') \<Longrightarrow> argData st' = argData st"
  unfolding connectServer_def by (auto elim!: bindM_cases call_cases split: if_splits)

lemma createRemoteDirectory_argData:
  "createRemoteDirectory ftp st = (r, st') \<Longrightarrow> argData st' = argData st"
  unfolding createRemoteDirectory_def by (auto elim!: bindM_cases call_cases split: if_splits)

lemma setUp_effect:
  assumes rel: "reliable ftp ok files (remoteDirectory (argData st)) root plain fresh"
    and ok: "ok (ftpServer st)"
    and run: "setUp ftp st = (r, st')"
  shows "ok (ftpServer st') \<and> files (ftpServer st') = files (ftpServer st)"
    and "r = Inr () \<Longrightarrow>
          argData st' = (argData st)\<lparr>remoteDirectory := root\<rparr>"
proof -
  from run have "(ok (ftpServer st') \<and> files (ftpServer st') = files (ftpServer st))
      \<and> (r = Inr () \<longrightarrow>
          argData st' = (argData st)\<lparr>remoteDirectory := root\<rparr>)"
    unfolding setUp_def
  proof (cases rule: bindM_cases)
    case (thrown e)
    with keepsD [OF connectServer_steady [OF rel]] ok show ?thesis
      by (auto simp: steady_def)
  next
    case (went u st1)
    from keepsD [OF connectServer_steady [OF rel] went(1)] ok
    have ok1: "ok (ftpServer st1)" and f1: "files (ftpServer st1) = files (ftpServer st)"
      by (simp_all add: steady_def)
    from went(1) have a1: "argData st1 = argData st" by (rule connectServer_argData)
    with rel have rel1: "reliable ftp ok files (remoteDirectory (argData st1)) root plain fresh"
      by simp
    from went(2) show ?thesis
    proof (cases rule: bindM_cases)
      case (thrown e)
      with createRemoteDirectory_steady [OF rel1] ok1 f1 show ?thesis
        by (auto simp: steady_def)
    next
      case (went v st2)
      from createRemoteDirectory_steady [OF rel1 went(1)] ok1 f1
      have ok2: "ok (ftpServer st2)" and f2: "files (ftpServer st2) = files (ftpServer st)"
        by (simp_all add: steady_def)
      from went(1) a1 have a2: "argData st2 = argData st"
        by (simp add: createRemoteDirectory_argData)
      with rel have rel2: "reliable ftp ok files (remoteDirectory (argData st2)) root plain fresh"
        by simp
      from enterRemoteDirectory_effect [OF rel2 ok2 went(2)] f2 a2 show ?thesis by simp
    qed
  qed
  then show "ok (ftpServer st') \<and> files (ftpServer st') = files (ftpServer st)"
    and "r = Inr () \<Longrightarrow>
          argData st' = (argData st)\<lparr>remoteDirectory := root\<rparr>"
    by simp_all
qed

lemma getFileLists_effect:
  assumes rel: "reliable ftp ok files given (remoteDirectory (argData st)) plain fresh"
    and ok: "ok (ftpServer st)"
    and run: "getFileLists ftp fs st = (r, st')"
  shows "ok (ftpServer st') \<and> files (ftpServer st') = files (ftpServer st)"
    and "r = Inr () \<Longrightarrow> set (remoteFiles st') = dom (files (ftpServer st))
          \<and> listLocalRecursive fs (localDirectory (argData st)) = Inr (localFiles st')"
proof -
  let ?R = "remoteDirectory (argData st)"
  from run have "bindM (call (ListRemoteRecursive ?R) Files (listRemoteRecursive ftp ?R)) (\<lambda>remote st'.
       bindM (callLocal (ListLocalRecursive (localDirectory (argData st))) Files
                (listLocalRecursive fs (localDirectory (argData st)))) (\<lambda>local st''.
         returnM () (st''\<lparr>localFiles := local\<rparr>)) (st'\<lparr>remoteFiles := remote\<rparr>)) st = (r, st')"
    by (simp add: getFileLists_def)
  then have "(ok (ftpServer st') \<and> files (ftpServer st') = files (ftpServer st))
    \<and> (r = Inr () \<longrightarrow> set (remoteFiles st') = dom (files (ftpServer st))
          \<and> listLocalRecursive fs (localDirectory (argData st)) = Inr (localFiles st'))"
  proof (cases rule: bindM_cases)
    case (thrown e)
    with ok unchangedD [OF reliable_quiet(7) [OF rel, of ?R]] show ?thesis
      by (auto elim!: call_cases)
  next
    case (went remote st1)
    from went(1) obtain s1 where ls: "listRemoteRecursive ftp ?R (ftpServer st) = (Inr remote, s1)"
      and st1: "st1 = st\<lparr>ftpServer := s1, trace := trace st @ [(ListRemoteRecursive ?R, answer Files (Inr remote))]\<rparr>"
      by (auto elim!: call_cases)
    from unchangedD [OF reliable_quiet(7) [OF rel] ok ls]
    have "ok s1" and "files s1 = files (ftpServer st)" by simp_all
    moreover from reliable_listing [OF rel ok ls] have "set remote = dom (files (ftpServer st))" .
    ultimately show ?thesis using went(2) st1
      by (auto elim!: bindM_cases callLocal_cases)
  qed
  then show "ok (ftpServer st') \<and> files (ftpServer st') = files (ftpServer st)"
    and "r = Inr () \<Longrightarrow> set (remoteFiles st') = dom (files (ftpServer st))
          \<and> listLocalRecursive fs (localDirectory (argData st)) = Inr (localFiles st')"
    by simp_all
qed

subsection \<open>A run on a server that mirrors the local list\<close>

lemma noteNewFile_known:
  assumes "\<forall>p \<in> set fl. \<exists>r. localFileToRemote (argData st) p = Inr r \<and> r \<in> set (remoteFiles st)"
  shows "forEach noteNewFile fl st = (Inr (), st)"
  using assms by (induction fl) (auto simp: noteNewFile_def returnM_def)

lemma pass1_nothing_new:
  assumes "\<forall>p \<in> set (localFiles st). \<exists>r. localFileToRemote (argData st) p = Inr r
      \<and> r \<in> set (remoteFiles st)"
  shows "pass1 ftp st = (Inr (), st\<lparr>newFiles := [], newFilesTransfered := []\<rparr>)"
proof -
  let ?st0 = "st\<lparr>newFiles := [], newFilesTransfered := []\<rparr>"
  from assms have "forEach noteNewFile (localFiles st) ?st0 = (Inr (), ?st0)"
    by (intro noteNewFile_known) simp
  then show ?thesis by (simp add: pass1_def bindM_def returnM_def)
qed

lemma pass2_no_orphan:
  assumes "\<forall>f \<in> set fl. \<exists>l. remoteFileToLocal (argData st) f = Inr l \<and> l \<in> set (localFiles st)"
  shows "forEach (removeIfDeleted ftp) fl st = (Inr (), st)"
  using assms by (induction fl) (auto simp: removeIfDeleted_def returnM_def)

lemma copy_nothing_stale:
  assumes "\<forall>p \<in> set fl. isFile fs p \<longrightarrow>
      (\<exists>r t. localFileToRemote (argData st) p = Inr r \<and> remoteFileModifiedTimes st r = Some t
         \<and> \<not> DateTime_less ftp t (localTime ftp fs p))"
  shows "forEach (copyIfUpdated ftp fs) fl st = (Inr (), st)"
  using assms
  by (induction fl) (auto simp: copyIfUpdated_def subscript_def localTime_def Let_def returnM_def)

lemma noteModifiedTime_effect:
  assumes rel: "reliable ftp ok files given root plain fresh" and ok: "ok (ftpServer st)"
    and sub: "\<forall>k t. plain k \<longrightarrow> remoteFileModifiedTimes st k = Some t
        \<longrightarrow> files (ftpServer st) k = Some t"
    and run: "noteModifiedTime ftp f st = (Inr (), st')"
  shows "ok (ftpServer st')" and "files (ftpServer st') = files (ftpServer st)"
    and "plain f \<Longrightarrow> remoteFileModifiedTimes st' f = files (ftpServer st) f"
    and "\<forall>k. k \<noteq> f \<longrightarrow> remoteFileModifiedTimes st' k = remoteFileModifiedTimes st k"
    and "argData st' = argData st" and "localFiles st' = localFiles st"
    and "remoteFiles st' = remoteFiles st"
proof -
  from run obtain c t s1 where q: "getModifiedDateTime ftp f (ftpServer st) = (Inr (c, t), s1)"
    and st': "st' = (if c = 213
        then st\<lparr>ftpServer := s1, trace := trace st @ [(GetModifiedDateTime f, Status c)],
               remoteFileModifiedTimes := (remoteFileModifiedTimes st)(f \<mapsto> t)\<rparr>
        else st\<lparr>ftpServer := s1, trace := trace st @ [(GetModifiedDateTime f, Status c)]\<rparr>)"
    unfolding noteModifiedTime_def
    by (auto simp: answer_def elim!: bindM_cases call_cases split: if_splits)
  from unchangedD [OF reliable_quiet(8) [OF rel] ok q]
  have ok1: "ok s1" and f1: "files s1 = files (ftpServer st)" by simp_all
  from st' ok1 show "ok (ftpServer st')" by simp
  from st' f1 show "files (ftpServer st') = files (ftpServer st)" by simp
  from st' show "argData st' = argData st" and "localFiles st' = localFiles st"
    and "remoteFiles st' = remoteFiles st" by simp_all
  from st' show "\<forall>k. k \<noteq> f \<longrightarrow> remoteFileModifiedTimes st' k = remoteFileModifiedTimes st k"
    by simp
  show "remoteFileModifiedTimes st' f = files (ftpServer st) f" if tm: "plain f"
  proof (cases "c = 213")
    case True
    with reliable_time(1) [OF rel ok tm q] st' show ?thesis by simp
  next
    case False
    with reliable_time(2) [OF rel ok tm q] have none: "files (ftpServer st) f = None" by blast
    with sub tm have "remoteFileModifiedTimes st f = None"
      by (cases "remoteFileModifiedTimes st f") auto
    with False st' none show ?thesis by simp
  qed
qed

lemma fill_loop:
  assumes rel: "reliable ftp ok files given root plain fresh" and ok: "ok (ftpServer st)"
    and sub: "\<forall>k t. plain k \<longrightarrow> remoteFileModifiedTimes st k = Some t
        \<longrightarrow> files (ftpServer st) k = Some t"
    and run: "forEach (noteModifiedTime ftp) fl st = (Inr (), st')"
  shows "ok (ftpServer st') \<and> files (ftpServer st') = files (ftpServer st)
       \<and> (\<forall>k. plain k \<longrightarrow> remoteFileModifiedTimes st' k =
            (if k \<in> set fl then files (ftpServer st) k else remoteFileModifiedTimes st k))
       \<and> (\<forall>k. k \<notin> set fl \<longrightarrow> remoteFileModifiedTimes st' k = remoteFileModifiedTimes st k)
       \<and> argData st' = argData st \<and> localFiles st' = localFiles st
       \<and> remoteFiles st' = remoteFiles st"
  using ok sub run
proof (induction fl arbitrary: st)
  case Nil
  then show ?case by simp
next
  case (Cons f fl)
  from Cons.prems(3) show ?case
  proof (cases rule: forEach_Cons_cases)
    case (thrown e)
    then show ?thesis by simp
  next
    case (went st1)
    note step = noteModifiedTime_effect [OF rel Cons.prems(1,2) went(1)]
    have sub1: "\<forall>k t. plain k \<longrightarrow> remoteFileModifiedTimes st1 k = Some t
        \<longrightarrow> files (ftpServer st1) k = Some t"
    proof (intro allI impI)
      fix k t
      assume k: "plain k" and m: "remoteFileModifiedTimes st1 k = Some t"
      show "files (ftpServer st1) k = Some t"
      proof (cases "k = f")
        case True
        with step(3) k m step(2) show ?thesis by simp
      next
        case False
        with step(4) m have "remoteFileModifiedTimes st k = Some t" by simp
        with Cons.prems(2) k step(2) show ?thesis by simp
      qed
    qed
    note rest = Cons.IH [OF step(1) sub1 went(2)]
    have told: "remoteFileModifiedTimes st' k =
        (if k \<in> set (f # fl) then files (ftpServer st) k else remoteFileModifiedTimes st k)"
      if k: "plain k" for k
    proof (cases "k \<in> set fl")
      case True
      with rest k step(2) show ?thesis by simp
    next
      case False
      with rest have same: "remoteFileModifiedTimes st' k = remoteFileModifiedTimes st1 k" by simp
      show ?thesis
      proof (cases "k = f")
        case True
        with same step(3) k show ?thesis by simp
      next
        case neq: False
        with same step(4) False show ?thesis by simp
      qed
    qed
    have frame: "remoteFileModifiedTimes st' k = remoteFileModifiedTimes st k"
      if "k \<notin> set (f # fl)" for k
      using that rest step(4) by simp
    from rest step(2,5,6,7) told frame show ?thesis by simp
  qed
qed

lemma noteModifiedTime_quiet: "keeps quiet (noteModifiedTime ftp f)"
  unfolding noteModifiedTime_def
  by (auto simp: keeps_def quiet_def calls_def issued_def commands_def
      elim!: bindM_cases call_cases split: if_splits)

lemma fillModifiedTimes_quiet: "keeps quiet (fillModifiedTimes ftp)"
proof (rule keepsI)
  fix st st' :: "('a, 'b) FTPSync" and r :: "error + unit"
  let ?st0 = "st\<lparr>remoteFileModifiedTimes := Map.empty\<rparr>"
  assume "fillModifiedTimes ftp st = (r, st')"
  then have "forEach (noteModifiedTime ftp) (remoteFiles st) ?st0 = (r, st')"
    by (simp add: fillModifiedTimes_def)
  moreover have "keeps quiet (forEach (noteModifiedTime ftp) (remoteFiles st))"
    by (intro keeps_forEach quiet_refl quiet_trans noteModifiedTime_quiet)
  ultimately have "quiet ?st0 st'" by (rule keepsD [rotated])
  then show "quiet st st'" by (simp add: quiet_def calls_def issued_def)
qed

lemma disconnect_quiet:
  "keeps quiet (bindM (call Disconnect Status (disconnect ftp)) (\<lambda>status. returnM ()))"
  by (intro keeps_bindM quiet_trans call_quiet keeps_returnM quiet_refl) simp

lemma quiet_operations:
  assumes "trace st0 = []" and "quiet st0 st"
  shows "operations (trace st) = []"
proof -
  from assms have "issued st0 st = commands (trace st)"
    by (simp add: quiet_def issued_def calls_def)
  with assms(2) show ?thesis
    by (simp add: quiet_def operations_def filter_empty_conv)
qed

lemma quiet_same_trace: "trace st' = trace st \<Longrightarrow> quiet st st'"
  by (simp add: quiet_def calls_def issued_def commands_def)

lemma quiet_then: "quiet st st' \<Longrightarrow> quiet st' st'' \<Longrightarrow> quiet st st''"
  using quiet_trans by (blast dest: transpD)

lemma run_on_mirror:
  fixes ftp :: "('s, 't) CFTP"
  assumes rel: "reliable ftp ok files (remoteDirectory parsed) root plain fresh" and ok: "ok s"
    and a: "a = parsed\<lparr>remoteDirectory := root\<rparr>"
    and loc: "listLocalRecursive fs (localDirectory parsed) = Inr local"
    and tm: "\<forall>p \<in> set local. isFile fs p \<longrightarrow> plain (remoteName a p)"
    and mir: "mirrored ftp fs a local (files s)"
    and run: "syncBody ftp fs (syncStart parsed s) = (r, st)"
  shows "quiet (syncStart parsed s :: ('s, 't) FTPSync) st"
proof -
  let ?st0 = "syncStart parsed s :: ('s, 't) FTPSync"
  have ok0: "ok (ftpServer ?st0)" and f0: "files (ftpServer ?st0) = files s"
    and a0: "argData ?st0 = parsed"
    using ok by (simp_all add: syncStart_def)
  from mir have P1: "\<forall>p \<in> set local. \<exists>r. localFileToRemote a p = Inr r \<and> r \<in> dom (files s)"
    and P2: "\<forall>f \<in> dom (files s). \<exists>l. remoteFileToLocal a f = Inr l \<and> l \<in> set local"
    and P3: "\<forall>p \<in> set local. isFile fs p \<longrightarrow>
            (\<forall>r t. localFileToRemote a p = Inr r \<longrightarrow> files s r = Some t \<longrightarrow>
               \<not> DateTime_less ftp t (localTime ftp fs p))"
    by (simp_all add: mirrored_def)
  from run show ?thesis unfolding syncBody_def
  proof (cases rule: bindM_cases)
    case (thrown e)
    with setUp_quiet show ?thesis by (auto dest: keepsD)
  next
    case (went u st1)
    with setUp_quiet have q1: "quiet ?st0 st1" by (auto dest: keepsD)
    from rel a0 have rel0: "reliable ftp ok files (remoteDirectory (argData ?st0)) root plain fresh"
      by simp
    from setUp_effect [OF rel0 ok0 went(1)] f0 a0 a
    have ok1: "ok (ftpServer st1)" and f1: "files (ftpServer st1) = files s"
      and a1: "argData st1 = a"
      by simp_all
    with rel a
    have rel1: "reliable ftp ok files (remoteDirectory parsed) (remoteDirectory (argData st1)) plain fresh"
      by simp
    from went(2) show ?thesis unfolding reconcile_def
    proof (cases rule: bindM_cases)
      case (thrown e)
      with getFileLists_quiet have "quiet st1 st" by (auto dest: keepsD)
      with q1 show ?thesis by (rule quiet_then)
    next
      case (went v st2)
      with getFileLists_quiet have "quiet st1 st2" by (auto dest: keepsD)
      with q1 have q2: "quiet ?st0 st2" by (rule quiet_then)
      from getFileLists_effect [OF rel1 ok1 went(1)] f1 a1 a loc
      have ok2: "ok (ftpServer st2)" and f2: "files (ftpServer st2) = files s"
        and rf2: "set (remoteFiles st2) = dom (files s)" and lf2: "localFiles st2 = local"
        by simp_all
      from went(1) a1 have a2: "argData st2 = a" by (simp add: getFileLists_argData)
      let ?st3 = "st2\<lparr>newFiles := [], newFilesTransfered := []\<rparr>"
      have p1: "pass1 ftp st2 = (Inr (), ?st3)"
        using P1 rf2 lf2 a2 by (intro pass1_nothing_new) simp
      have p2: "pass2 ftp ?st3 = (Inr (), ?st3)"
        unfolding pass2_def using P2 rf2 lf2 a2 by (intro pass2_no_orphan) simp
      have q3: "quiet ?st0 ?st3"
        using q2 by (rule quiet_then) (simp add: quiet_same_trace)
      obtain rf st4 where fill: "fillModifiedTimes ftp ?st3 = (rf, st4)"
        by (cases "fillModifiedTimes ftp ?st3")
      with fillModifiedTimes_quiet have "quiet ?st3 st4" by (auto dest: keepsD)
      with q3 have q4: "quiet ?st0 st4" by (rule quiet_then)
      show ?thesis
      proof (cases rf)
        case (Inl e)
        with fill p1 p2 went(2) have "st = st4"
          by (simp add: passes_def pass3_def bindM_def)
        with q4 show ?thesis by simp
      next
        case (Inr w)
        let ?st3' = "?st3\<lparr>remoteFileModifiedTimes := Map.empty\<rparr>"
        from fill Inr have loop: "forEach (noteModifiedTime ftp) (remoteFiles ?st3) ?st3' = (Inr (), st4)"
          by (simp add: fillModifiedTimes_def)
        have "ok (ftpServer st4) \<and> files (ftpServer st4) = files (ftpServer ?st3')
          \<and> (\<forall>k. plain k \<longrightarrow> remoteFileModifiedTimes st4 k =
               (if k \<in> set (remoteFiles ?st3) then files (ftpServer ?st3') k
                else remoteFileModifiedTimes ?st3' k))
          \<and> (\<forall>k. k \<notin> set (remoteFiles ?st3)
               \<longrightarrow> remoteFileModifiedTimes st4 k = remoteFileModifiedTimes ?st3' k)
          \<and> argData st4 = argData ?st3' \<and> localFiles st4 = localFiles ?st3'
          \<and> remoteFiles st4 = remoteFiles ?st3'"
          using ok2 by (intro fill_loop [OF rel _ _ loop]) simp_all
        with f2 rf2 lf2 a2
        have m4: "\<forall>k. plain k \<longrightarrow> k \<in> dom (files s) \<longrightarrow> remoteFileModifiedTimes st4 k = files s k"
          and a4: "argData st4 = a" and lf4: "localFiles st4 = local"
          by (simp_all cong: if_cong)
        have "forEach (copyIfUpdated ftp fs) (localFiles st4) st4 = (Inr (), st4)"
        proof (rule copy_nothing_stale, intro ballI impI)
          fix p assume "p \<in> set (localFiles st4)" and isf: "isFile fs p"
          with lf4 have p: "p \<in> set local" by simp
          with P1 obtain r t where r: "localFileToRemote a p = Inr r" and t: "files s r = Some t"
            by (auto simp: domIff)
          with P3 p isf have "\<not> DateTime_less ftp t (localTime ftp fs p)" by blast
          moreover from tm p isf r have "plain r" by (auto simp: remoteName_def)
          with m4 t have "remoteFileModifiedTimes st4 r = Some t" by (simp add: domIff)
          ultimately
          show "\<exists>r t. localFileToRemote (argData st4) p = Inr r
              \<and> remoteFileModifiedTimes st4 r = Some t
              \<and> \<not> DateTime_less ftp t (localTime ftp fs p)"
            using r a4 by auto
        qed
        then have "copyUpdated ftp fs st4 = (Inr (), st4)" by (simp add: copyUpdated_def)
        with fill Inr p1 p2 went(2)
        have "bindM (call Disconnect Status (disconnect ftp)) (\<lambda>status. returnM ()) st4 = (r, st)"
          by (simp add: passes_def pass3_def bindM_def [of "pass1 ftp"] bindM_def [of "pass2 ftp"]
              bindM_def [of "fillModifiedTimes ftp"] bindM_def [of "passes ftp fs"]
              bindM_def [of "bindM m f" for m f])
        with disconnect_quiet have "quiet st4 st" by (rule keepsD)
        with q4 show ?thesis by (rule quiet_then)
      qed
    qed
  qed
qed

subsection \<open>A run whose operations succeed\<close>

lemma succeeded_simps [simp]:
  "succeeded a (c, Threw e) = False"
  "succeeded a (PutFiles l fl, Files got) = list_all (\<lambda>p. remoteName a p \<in> set got) fl"
  "succeeded a (PutFile r p, Status n) = (n = 226)"
  "succeeded a (RemoveDirectory f, Status n) = (n = 250)"
  by (simp_all add: succeeded_def)

lemma noteNewFile_defined:
  assumes "forEach noteNewFile fl st = (Inr (), st')"
  shows "\<forall>p \<in> set fl. \<exists>r. localFileToRemote (argData st) p = Inr r"
  using assms
proof (induction fl arbitrary: st)
  case Nil
  then show ?case by simp
next
  case (Cons p fl)
  from Cons.prems show ?case
  proof (cases rule: forEach_Cons_cases)
    case (thrown e)
    then show ?thesis by simp
  next
    case (went st1)
    from went(1) have "\<exists>r. localFileToRemote (argData st) p = Inr r" and "argData st1 = argData st"
      by (auto simp: noteNewFile_def split: sum.splits if_splits)
    with Cons.IH [OF went(2)] show ?thesis by simp
  qed
qed

lemma pass1_effect:
  assumes rel: "reliable ftp ok files given root plain fresh" and ok: "ok (ftpServer st)"
    and run: "pass1 ftp st = (Inr (), st')"
    and suc: "list_all (succeeded (argData st)) (calls st st')"
  shows "ok (ftpServer st')"
    and "argData st' = argData st" and "localFiles st' = localFiles st"
    and "set (remoteFiles st') = set (remoteFiles st) \<union> set (newFilesTransfered st')"
    and "dom (files (ftpServer st')) = dom (files (ftpServer st)) \<union> set (newFilesTransfered st')"
    and "\<forall>f. f \<notin> set (newFilesTransfered st') \<longrightarrow> files (ftpServer st') f = files (ftpServer st) f"
    and "\<forall>f t. f \<in> set (newFilesTransfered st') \<longrightarrow> files (ftpServer st') f = Some t \<longrightarrow> fresh f t"
    and "\<forall>p \<in> set (localFiles st). \<exists>r. localFileToRemote (argData st) p = Inr r
           \<and> (r \<in> set (remoteFiles st) \<or> r \<in> set (newFilesTransfered st'))"
proof -
  let ?st0 = "st\<lparr>newFiles := [], newFilesTransfered := []\<rparr>"
  let ?new = "filter (isNew (argData st) (remoteFiles st)) (localFiles st)"
  let ?L = "localDirectory (argData st)"
  from run obtain st1 where loop: "forEach noteNewFile (localFiles st) ?st0 = (Inr (), st1)"
    and rest: "(if newFiles st1 \<noteq> []
       then bindM (call (PutFiles (localDirectory (argData st1)) (newFiles st1)) Files
                     (putFiles ftp (localDirectory (argData st1)) (newFiles st1))) (\<lambda>sent st''.
              returnM () (st''\<lparr>newFilesTransfered := sent,
                                 remoteFiles := remoteFiles st'' @ sent\<rparr>)) st1
       else returnM () st1) = (Inr (), st')"
    unfolding pass1_def by (auto elim!: bindM_cases)
  from noteNewFile_loop [OF loop] have st1: "st1 = ?st0\<lparr>newFiles := ?new\<rparr>" by simp
  from noteNewFile_defined [OF loop]
  have defined: "\<forall>p \<in> set (localFiles st). \<exists>r. localFileToRemote (argData st) p = Inr r"
    by simp
  have all: "ok (ftpServer st') \<and> argData st' = argData st \<and> localFiles st' = localFiles st
    \<and> set (remoteFiles st') = set (remoteFiles st) \<union> set (newFilesTransfered st')
    \<and> dom (files (ftpServer st')) = dom (files (ftpServer st)) \<union> set (newFilesTransfered st')
    \<and> (\<forall>f. f \<notin> set (newFilesTransfered st') \<longrightarrow> files (ftpServer st') f = files (ftpServer st) f)
    \<and> (\<forall>f t. f \<in> set (newFilesTransfered st') \<longrightarrow> files (ftpServer st') f = Some t \<longrightarrow> fresh f t)
    \<and> (\<forall>p \<in> set (localFiles st). \<exists>r. localFileToRemote (argData st) p = Inr r
           \<and> (r \<in> set (remoteFiles st) \<or> r \<in> set (newFilesTransfered st')))"
  proof (cases "?new = []")
    case True
    with rest st1 have st': "st' = ?st0" by simp
    from True have "\<forall>p \<in> set (localFiles st). \<not> isNew (argData st) (remoteFiles st) p"
      by (simp add: filter_empty_conv)
    with defined have "\<forall>p \<in> set (localFiles st). \<exists>r. localFileToRemote (argData st) p = Inr r
           \<and> r \<in> set (remoteFiles st)"
      by (fastforce simp: isNew_def)
    with st' ok show ?thesis by simp
  next
    case False
    with rest st1 obtain sent s' where put: "putFiles ftp ?L ?new (ftpServer st) = (Inr sent, s')"
      and st': "st' = st\<lparr>ftpServer := s', trace := trace st @ [(PutFiles ?L ?new, Files sent)],
          newFiles := ?new, newFilesTransfered := sent, remoteFiles := remoteFiles st @ sent\<rparr>"
      by (auto simp: answer_def elim!: bindM_cases call_cases)
    from st' suc have got: "\<forall>p \<in> set ?new. remoteName (argData st) p \<in> set sent"
      by (simp add: calls_def list_all_iff)
    have "\<exists>r. localFileToRemote (argData st) p = Inr r
           \<and> (r \<in> set (remoteFiles st) \<or> r \<in> set sent)" if "p \<in> set (localFiles st)" for p
    proof -
      from defined that obtain r where r: "localFileToRemote (argData st) p = Inr r" by blast
      show ?thesis
      proof (cases "isNew (argData st) (remoteFiles st) p")
        case True
        with that got have "remoteName (argData st) p \<in> set sent" by simp
        with r show ?thesis by (simp add: remoteName_def)
      next
        case False
        with r show ?thesis by (simp add: isNew_def)
      qed
    qed
    with st' reliable_putFiles [OF rel ok put] show ?thesis by auto
  qed
  from all show "ok (ftpServer st')" by simp
  from all show "argData st' = argData st" by simp
  from all show "localFiles st' = localFiles st" by simp
  from all show "set (remoteFiles st') = set (remoteFiles st) \<union> set (newFilesTransfered st')" by simp
  from all show "dom (files (ftpServer st')) = dom (files (ftpServer st)) \<union> set (newFilesTransfered st')"
    by simp
  from all show "\<forall>f. f \<notin> set (newFilesTransfered st') \<longrightarrow> files (ftpServer st') f = files (ftpServer st) f"
    by simp
  from all show "\<forall>f t. f \<in> set (newFilesTransfered st') \<longrightarrow> files (ftpServer st') f = Some t \<longrightarrow> fresh f t"
    by simp
  from all show "\<forall>p \<in> set (localFiles st). \<exists>r. localFileToRemote (argData st) p = Inr r
           \<and> (r \<in> set (remoteFiles st) \<or> r \<in> set (newFilesTransfered st'))"
    by simp
qed

lemma removeIfDeleted_success:
  assumes rel: "reliable ftp ok files given root plain fresh" and ok: "ok (ftpServer st)"
    and run: "removeIfDeleted ftp f st = (Inr (), st')"
    and suc: "list_all (succeeded a) (calls st st')"
  shows "ok (ftpServer st')"
    and "argData st' = argData st" and "localFiles st' = localFiles st"
    and "remoteFiles st' = remoteFiles st"
    and "files (ftpServer st') =
          (if isOrphan (argData st) (localFiles st) f then (files (ftpServer st))(f := None)
           else files (ftpServer st))"
    and "\<exists>l. remoteFileToLocal (argData st) f = Inr l"
proof -
  from run obtain l where l: "remoteFileToLocal (argData st) f = Inr l"
    by (auto simp: removeIfDeleted_def split: sum.splits)
  have all: "ok (ftpServer st') \<and> argData st' = argData st \<and> localFiles st' = localFiles st
    \<and> remoteFiles st' = remoteFiles st
    \<and> files (ftpServer st') =
          (if isOrphan (argData st) (localFiles st) f then (files (ftpServer st))(f := None)
           else files (ftpServer st))"
  proof (cases "l \<in> set (localFiles st)")
    case True
    with run l have "st' = st" by (simp add: removeIfDeleted_def)
    with True l ok show ?thesis by (simp add: isOrphan_def)
  next
    case False
    with l have orphan: "isOrphan (argData st) (localFiles st) f" by (simp add: isOrphan_def)
    from run l False
    have "bindM (call (DeleteFile f) Status (deleteFile ftp f)) (\<lambda>status.
                 if status = 250 then returnM ()
                 else bindM (call (RemoveDirectory f) Status (removeDirectory ftp f))
                        (\<lambda>status. returnM ())) st = (Inr (), st')"
      by (simp add: removeIfDeleted_def)
    then obtain c s1 st1 where del: "deleteFile ftp f (ftpServer st) = (Inr c, s1)"
      and st1: "st1 = st\<lparr>ftpServer := s1, trace := trace st @ [(DeleteFile f, Status c)]\<rparr>"
      and rest: "(if c = 250 then returnM ()
                 else bindM (call (RemoveDirectory f) Status (removeDirectory ftp f))
                        (\<lambda>status. returnM ())) st1 = (Inr (), st')"
      by (auto simp: answer_def elim!: bindM_cases call_cases)
    note d = reliable_deleteFile [OF rel ok del]
    show ?thesis
    proof (cases "c = 250")
      case True
      with rest st1 have "st' = st1" by simp
      with st1 d(1) d(2) True orphan show ?thesis by simp
    next
      case False
      with rest st1 obtain c' s2 where rm: "removeDirectory ftp f s1 = (Inr c', s2)"
        and st': "st' = st\<lparr>ftpServer := s2,
            trace := trace st @ [(DeleteFile f, Status c), (RemoveDirectory f, Status c')]\<rparr>"
        by (auto simp: answer_def elim!: bindM_cases call_cases)
      from st' suc have "c' = 250" by (simp add: calls_def)
      with reliable_removeDirectory [OF rel d(1) rm] d(3) [OF refl False]
      have "ok s2" and "files s2 = (files (ftpServer st))(f := None)" by simp_all
      with st' orphan show ?thesis by simp
    qed
  qed
  from all show "ok (ftpServer st')" by simp
  from all show "argData st' = argData st" by simp
  from all show "localFiles st' = localFiles st" by simp
  from all show "remoteFiles st' = remoteFiles st" by simp
  from all show "files (ftpServer st') =
          (if isOrphan (argData st) (localFiles st) f then (files (ftpServer st))(f := None)
           else files (ftpServer st))" by simp
  from l show "\<exists>l. remoteFileToLocal (argData st) f = Inr l" by blast
qed

lemma list_all_calls:
  assumes "trace st1 = trace st @ calls st st1" and "trace st2 = trace st1 @ calls st1 st2"
    and "list_all P (calls st st2)"
  shows "list_all P (calls st st1)" and "list_all P (calls st1 st2)"
  using assms grows_trans(2) [OF assms(1,2)] by simp_all

lemma forEach_grows:
  assumes "\<And>x. keeps settled (body x)" and "forEach body xs st = (r, st')"
  shows "trace st' = trace st @ calls st st'"
proof -
  have "keeps settled (forEach body xs)"
    by (intro keeps_forEach settled_refl settled_trans assms(1))
  then have "settled st st'" using assms(2) by (rule keepsD)
  then show ?thesis by (simp add: settled_def)
qed

lemma pass2_effect:
  assumes rel: "reliable ftp ok files given root plain fresh" and ok: "ok (ftpServer st)"
    and run: "forEach (removeIfDeleted ftp) fl st = (Inr (), st')"
    and suc: "list_all (succeeded a) (calls st st')"
  shows "ok (ftpServer st') \<and> argData st' = argData st \<and> localFiles st' = localFiles st
       \<and> remoteFiles st' = remoteFiles st
       \<and> files (ftpServer st') =
           (\<lambda>f. if f \<in> set fl \<and> isOrphan (argData st) (localFiles st) f then None
                else files (ftpServer st) f)
       \<and> (\<forall>f \<in> set fl. \<exists>l. remoteFileToLocal (argData st) f = Inr l)"
  using ok run suc
proof (induction fl arbitrary: st)
  case Nil
  then show ?case by simp
next
  case (Cons f fl)
  from Cons.prems(2) show ?case
  proof (cases rule: forEach_Cons_cases)
    case (thrown e)
    then show ?thesis by simp
  next
    case (went st1)
    have g1: "trace st1 = trace st @ calls st st1"
      using keepsD [OF removeIfDeleted_settled went(1)] by (simp add: settled_def)
    have g2: "trace st' = trace st1 @ calls st1 st'"
      using went(2) by (rule forEach_grows [OF removeIfDeleted_settled])
    note s = list_all_calls [OF g1 g2 Cons.prems(3)]
    note step = removeIfDeleted_success [OF rel Cons.prems(1) went(1) s(1)]
    from Cons.IH [OF step(1) went(2) s(2)] step show ?thesis
      by (auto simp: fun_eq_iff)
  qed
qed

lemma copyIfUpdated_success:
  assumes rel: "reliable ftp ok files given root plain fresh" and ok: "ok (ftpServer st)"
    and young0: "isFile fs p \<longrightarrow> (\<forall>r t. localFileToRemote (argData st) p = Inr r \<longrightarrow> fresh r t
        \<longrightarrow> \<not> DateTime_less ftp t (localTime ftp fs p))"
    and run: "copyIfUpdated ftp fs p st = (Inr (), st')"
    and suc: "list_all (succeeded a) (calls st st')"
    and inv: "\<forall>k. plain k \<longrightarrow> files (ftpServer st) k = remoteFileModifiedTimes st k
        \<or> (\<exists>t. files (ftpServer st) k = Some t \<and> fresh k t)"
    and known: "isFile fs p \<longrightarrow> (\<forall>r. localFileToRemote (argData st) p = Inr r
        \<longrightarrow> plain r \<and> r \<in> dom (remoteFileModifiedTimes st) \<and> r \<in> dom (files (ftpServer st)))"
  shows "ok (ftpServer st')"
    and "remoteFileModifiedTimes st' = remoteFileModifiedTimes st"
    and "argData st' = argData st" and "localFiles st' = localFiles st"
    and "dom (files (ftpServer st')) = dom (files (ftpServer st))"
    and "\<forall>k t. files (ftpServer st') k = Some t \<longrightarrow> files (ftpServer st) k = Some t \<or> fresh k t"
    and "isFile fs p \<Longrightarrow> localFileToRemote (argData st) p = Inr r \<Longrightarrow>
          \<exists>t. files (ftpServer st') r = Some t \<and> \<not> DateTime_less ftp t (localTime ftp fs p)"
proof -
  have all: "ok (ftpServer st') \<and> remoteFileModifiedTimes st' = remoteFileModifiedTimes st
    \<and> argData st' = argData st \<and> localFiles st' = localFiles st
    \<and> dom (files (ftpServer st')) = dom (files (ftpServer st))
    \<and> (\<forall>k t. files (ftpServer st') k = Some t \<longrightarrow> files (ftpServer st) k = Some t \<or> fresh k t)
    \<and> (isFile fs p \<longrightarrow> (\<forall>r. localFileToRemote (argData st) p = Inr r \<longrightarrow>
          (\<exists>t. files (ftpServer st') r = Some t \<and> \<not> DateTime_less ftp t (localTime ftp fs p))))"
  proof (cases "isFile fs p")
    case False
    with run have "st' = st" by (simp add: copyIfUpdated_def)
    with False ok show ?thesis by simp
  next
    case True
    with run obtain r where r: "localFileToRemote (argData st) p = Inr r"
      by (auto simp: copyIfUpdated_def Let_def split: sum.splits)
    from young0 True r
    have young: "\<not> DateTime_less ftp t (localTime ftp fs p)" if "fresh r t" for t
      using that by blast
    from known True r obtain t0 where tr: "plain r"
      and t0: "remoteFileModifiedTimes st r = Some t0"
      and held: "r \<in> dom (files (ftpServer st))"
      by blast
    then have sub: "subscript (DateTime_default ftp) (remoteFileModifiedTimes st) r
        = (t0, remoteFileModifiedTimes st)"
      by (simp add: subscript_def)
    show ?thesis
    proof (cases "DateTime_less ftp t0 (localTime ftp fs p)")
      case False
      with run True r sub have st': "st' = st"
        by (simp add: copyIfUpdated_def Let_def localTime_def)
      from inv tr have "files (ftpServer st) r = remoteFileModifiedTimes st r
          \<or> (\<exists>t. files (ftpServer st) r = Some t \<and> fresh r t)"
        by blast
      with t0 have "\<exists>t. files (ftpServer st) r = Some t
          \<and> \<not> DateTime_less ftp t (localTime ftp fs p)"
        using False young by auto
      with st' ok r show ?thesis by simp
    next
      case less: True
      with run True r sub
      have "bindM (call (PutFile r p) Status (putFile ftp r p)) (\<lambda>status. returnM ())
          (st\<lparr>remoteFileModifiedTimes := remoteFileModifiedTimes st\<rparr>) = (Inr (), st')"
        by (simp add: copyIfUpdated_def Let_def localTime_def)
      then obtain c s1 where put: "putFile ftp r p (ftpServer st) = (Inr c, s1)"
        and st': "st' = st\<lparr>ftpServer := s1, trace := trace st @ [(PutFile r p, Status c)]\<rparr>"
        by (auto simp: answer_def elim!: bindM_cases call_cases)
      from st' suc have "c = 226" by (simp add: calls_def)
      with reliable_putFile [OF rel ok tr put] obtain t where "ok s1" and t: "fresh r t"
        and f1: "files s1 = (files (ftpServer st))(r \<mapsto> t)"
        by auto
      with st' r held young [OF t] show ?thesis by auto
    qed
  qed
  from all show "ok (ftpServer st')" by simp
  from all show "remoteFileModifiedTimes st' = remoteFileModifiedTimes st" by simp
  from all show "argData st' = argData st" by simp
  from all show "localFiles st' = localFiles st" by simp
  from all show "dom (files (ftpServer st')) = dom (files (ftpServer st))" by simp
  from all show "\<forall>k t. files (ftpServer st') k = Some t \<longrightarrow> files (ftpServer st) k = Some t \<or> fresh k t"
    by simp
  from all show "isFile fs p \<Longrightarrow> localFileToRemote (argData st) p = Inr r \<Longrightarrow>
          \<exists>t. files (ftpServer st') r = Some t \<and> \<not> DateTime_less ftp t (localTime ftp fs p)"
    by simp
qed

lemma copy_effect:
  assumes rel: "reliable ftp ok files given root plain fresh" and ok: "ok (ftpServer st)"
    and young: "\<forall>p \<in> set fl. isFile fs p \<longrightarrow>
        (\<forall>r t. localFileToRemote (argData st) p = Inr r \<longrightarrow> fresh r t
           \<longrightarrow> \<not> DateTime_less ftp t (localTime ftp fs p))"
    and run: "forEach (copyIfUpdated ftp fs) fl st = (Inr (), st')"
    and suc: "list_all (succeeded a) (calls st st')"
    and inv: "\<forall>k. plain k \<longrightarrow> files (ftpServer st) k = remoteFileModifiedTimes st k
        \<or> (\<exists>t. files (ftpServer st) k = Some t \<and> fresh k t)"
    and known: "\<forall>p \<in> set fl. isFile fs p \<longrightarrow> (\<forall>r. localFileToRemote (argData st) p = Inr r
        \<longrightarrow> plain r \<and> r \<in> dom (remoteFileModifiedTimes st) \<and> r \<in> dom (files (ftpServer st)))"
  shows "ok (ftpServer st')
       \<and> argData st' = argData st \<and> localFiles st' = localFiles st
       \<and> dom (files (ftpServer st')) = dom (files (ftpServer st))
       \<and> (\<forall>k t. files (ftpServer st') k = Some t \<longrightarrow> files (ftpServer st) k = Some t \<or> fresh k t)
       \<and> (\<forall>p \<in> set fl. isFile fs p \<longrightarrow> (\<forall>r. localFileToRemote (argData st) p = Inr r \<longrightarrow>
            (\<exists>t. files (ftpServer st') r = Some t \<and> \<not> DateTime_less ftp t (localTime ftp fs p))))"
  using ok young run suc inv known
proof (induction fl arbitrary: st)
  case Nil
  then show ?case by simp
next
  case (Cons p fl)
  from Cons.prems(3) show ?case
  proof (cases rule: forEach_Cons_cases)
    case (thrown e)
    then show ?thesis by simp
  next
    case (went st1)
    have g1: "trace st1 = trace st @ calls st st1"
      using keepsD [OF copyIfUpdated_settled went(1)] by (simp add: settled_def)
    have g2: "trace st' = trace st1 @ calls st1 st'"
      using went(2) by (rule forEach_grows [OF copyIfUpdated_settled])
    note s = list_all_calls [OF g1 g2 Cons.prems(4)]
    have young_p: "isFile fs p \<longrightarrow> (\<forall>r t. localFileToRemote (argData st) p = Inr r \<longrightarrow> fresh r t
        \<longrightarrow> \<not> DateTime_less ftp t (localTime ftp fs p))"
      using Cons.prems(2) by simp
    have known_p: "isFile fs p \<longrightarrow> (\<forall>r. localFileToRemote (argData st) p = Inr r
        \<longrightarrow> plain r \<and> r \<in> dom (remoteFileModifiedTimes st) \<and> r \<in> dom (files (ftpServer st)))"
      using Cons.prems(6) by simp
    note step = copyIfUpdated_success [OF rel Cons.prems(1) young_p went(1) s(1) Cons.prems(5) known_p]
    have inv1: "\<forall>k. plain k \<longrightarrow> files (ftpServer st1) k = remoteFileModifiedTimes st1 k
        \<or> (\<exists>t. files (ftpServer st1) k = Some t \<and> fresh k t)"
    proof (intro allI impI)
      fix k
      assume k: "plain k"
      with Cons.prems(5) have old: "files (ftpServer st) k = remoteFileModifiedTimes st k
          \<or> (\<exists>t. files (ftpServer st) k = Some t \<and> fresh k t)"
        by blast
      show "files (ftpServer st1) k = remoteFileModifiedTimes st1 k
        \<or> (\<exists>t. files (ftpServer st1) k = Some t \<and> fresh k t)"
      proof (cases "files (ftpServer st1) k")
        case None
        with step(5) have "files (ftpServer st) k = None" by (metis domIff)
        with old None step(2) show ?thesis by (metis option.distinct(1))
      next
        case (Some t)
        with step(6) have "files (ftpServer st) k = Some t \<or> fresh k t" by blast
        with old Some step(2) show ?thesis by metis
      qed
    qed
    have young1: "\<forall>q \<in> set fl. isFile fs q \<longrightarrow>
        (\<forall>r t. localFileToRemote (argData st1) q = Inr r \<longrightarrow> fresh r t
           \<longrightarrow> \<not> DateTime_less ftp t (localTime ftp fs q))"
      using Cons.prems(2) step(3) by simp
    have known1: "\<forall>q \<in> set fl. isFile fs q \<longrightarrow> (\<forall>r. localFileToRemote (argData st1) q = Inr r
        \<longrightarrow> plain r \<and> r \<in> dom (remoteFileModifiedTimes st1) \<and> r \<in> dom (files (ftpServer st1)))"
      using Cons.prems(6) step(2,3,5) by simp
    note rest = Cons.IH [OF step(1) young1 went(2) s(2) inv1 known1]
    have head: "\<exists>t. files (ftpServer st') r = Some t \<and> \<not> DateTime_less ftp t (localTime ftp fs p)"
      if isf: "isFile fs p" and r: "localFileToRemote (argData st) p = Inr r" for r
    proof -
      from step(7) [OF that] obtain t1 where t1: "files (ftpServer st1) r = Some t1"
        and n1: "\<not> DateTime_less ftp t1 (localTime ftp fs p)" by blast
      from t1 rest obtain t where t: "files (ftpServer st') r = Some t"
        by (metis domD domI)
      with rest have "files (ftpServer st1) r = Some t \<or> fresh r t" by blast
      with t1 n1 young_p isf r have "\<not> DateTime_less ftp t (localTime ftp fs p)" by auto
      with t show ?thesis by blast
    qed
    have mono: "\<forall>k t. files (ftpServer st') k = Some t \<longrightarrow> files (ftpServer st) k = Some t \<or> fresh k t"
      using rest step(6) by blast
    from rest step(3,4,5) head mono show ?thesis by auto
  qed
qed

lemma disconnect_steady:
  assumes "reliable ftp ok files given root plain fresh"
  shows "keeps (steady ok files) (bindM (call Disconnect Status (disconnect ftp)) (\<lambda>status. returnM ()))"
  by (intro keeps_bindM steady_trans keeps_returnM steady_refl call_steady
      reliable_quiet(2) [OF assms])

lemma not_orphan_of_local:
  assumes "localDirectory a = stem @ [CHR ''/'']" and "prefix (localDirectory a) p"
    and "localFileToRemote a p = Inr r" and "p \<in> set local"
  shows "\<not> isOrphan a local r"
proof -
  from assms(2) obtain rest where p: "p = localDirectory a @ rest" by (auto simp: prefix_def)
  with localFileToRemote_under_root [OF assms(1), of rest] assms(3)
  have "r = remoteDirectory a @ CHR ''/'' # rest" by simp
  with remoteFileToLocal_under_root [of a "CHR ''/''" rest] p assms(4) show ?thesis
    by (simp add: isOrphan_def)
qed

lemma bindM_returned:
  assumes "bindM m f st = (Inr y, st'')"
  obtains x st' where "m st = (Inr x, st')" and "f x st' = (Inr y, st'')"
  using assms by (auto elim: bindM_cases)

lemma first_run_mirrors:
  fixes ftp :: "('s, 't) CFTP"
  assumes rel: "reliable ftp ok files (remoteDirectory parsed) root plain fresh" and ok: "ok s"
    and parsed: "procCmdLine args = Some parsed"
    and a: "a = parsed\<lparr>remoteDirectory := root\<rparr>"
    and loc: "listLocalRecursive fs (localDirectory parsed) = Inr local"
    and under: "\<forall>p \<in> set local. prefix (localDirectory parsed) p"
    and tm: "\<forall>p \<in> set local. isFile fs p \<longrightarrow> plain (remoteName a p)"
    and young: "\<forall>p \<in> set local. isFile fs p \<longrightarrow>
        (\<forall>t. fresh (remoteName a p) t \<longrightarrow> \<not> DateTime_less ftp t (localTime ftp fs p))"
    and run: "syncBody ftp fs (syncStart parsed s) = (Inr (), st)"
    and suc: "list_all (succeeded (argData st)) (trace st)"
  shows "ok (ftpServer st) \<and> argData st = a \<and> mirrored ftp fs a local (files (ftpServer st))"
proof -
  let ?st0 = "syncStart parsed s :: ('s, 't) FTPSync"
  have ok0: "ok (ftpServer ?st0)" and a0: "argData ?st0 = parsed"
    and f0: "files (ftpServer ?st0) = files s"
    using ok by (simp_all add: syncStart_def)
  from procCmdLine_local [OF parsed] a obtain stem where stem: "localDirectory a = stem @ [CHR ''/'']"
    by auto
  \<comment> \<open>the phases of the run\<close>
  from run obtain u1 st1 where up': "setUp ftp ?st0 = (Inr u1, st1)"
    and rec: "reconcile ftp fs st1 = (Inr (), st)"
    unfolding syncBody_def by (rule bindM_returned)
  from rec obtain u2 st2 where lists': "getFileLists ftp fs st1 = (Inr u2, st2)"
    and rest: "bindM (passes ftp fs) (\<lambda>u.
        bindM (call Disconnect Status (disconnect ftp)) (\<lambda>status. returnM ())) st2 = (Inr (), st)"
    unfolding reconcile_def by (rule bindM_returned)
  from rest obtain u3 st5 where ps': "passes ftp fs st2 = (Inr u3, st5)"
    and dis: "bindM (call Disconnect Status (disconnect ftp)) (\<lambda>status. returnM ()) st5 = (Inr (), st)"
    by (rule bindM_returned)
  from ps' obtain u4 st3 where p1': "pass1 ftp st2 = (Inr u4, st3)"
    and rest2: "bindM (pass2 ftp) (\<lambda>u. pass3 ftp fs) st3 = (Inr u3, st5)"
    unfolding passes_def by (rule bindM_returned)
  from rest2 obtain u5 st4 where p2': "pass2 ftp st3 = (Inr u5, st4)"
    and p3: "pass3 ftp fs st4 = (Inr u3, st5)"
    by (rule bindM_returned)
  from p3 obtain u6 st4' where fill': "fillModifiedTimes ftp st4 = (Inr u6, st4')"
    and copy': "copyUpdated ftp fs st4' = (Inr u3, st5)"
    unfolding pass3_def by (rule bindM_returned)
  from up' lists' ps' p1' p2' fill' copy'
  have up: "setUp ftp ?st0 = (Inr (), st1)" and lists: "getFileLists ftp fs st1 = (Inr (), st2)"
    and p1: "pass1 ftp st2 = (Inr (), st3)" and p2: "pass2 ftp st3 = (Inr (), st4)"
    and fill: "fillModifiedTimes ftp st4 = (Inr (), st4')"
    and copy: "copyUpdated ftp fs st4' = (Inr (), st5)"
    by simp_all
  \<comment> \<open>the parameters\<close>
  from rel a0 have rel0: "reliable ftp ok files (remoteDirectory (argData ?st0)) root plain fresh"
    by simp
  from setUp_effect [OF rel0 ok0 up] a0 f0 a
  have ok1: "ok (ftpServer st1)" and f1: "files (ftpServer st1) = files s" and a1: "argData st1 = a"
    by simp_all
  with rel a
  have rel1: "reliable ftp ok files (remoteDirectory parsed) (remoteDirectory (argData st1)) plain fresh"
    by simp
  from reconcile_argData [OF rec] a1 have a_end: "argData st = a" by simp
  \<comment> \<open>the traces\<close>
  have g3: "trace st3 = trace st2 @ calls st2 st3"
    using keepsD [OF pass1_settled p1] by (simp add: settled_def)
  have g4: "trace st4 = trace st3 @ calls st3 st4"
    using keepsD [OF pass2_settled p2] by (simp add: settled_def)
  have g4': "trace st4' = trace st4 @ calls st4 st4'"
    using keepsD [OF fillModifiedTimes_quiet fill] by (simp add: quiet_def)
  have g5: "trace st5 = trace st4' @ calls st4' st5"
    using copy unfolding copyUpdated_def by (rule forEach_grows [OF copyIfUpdated_settled])
  have g6: "trace st = trace st5 @ calls st5 st"
    using keepsD [OF disconnect_quiet dis] by (simp add: quiet_def)
  from suc a_end g6 have s5: "list_all (succeeded a) (trace st5)" by (metis list_all_append)
  with g5 have s4': "list_all (succeeded a) (trace st4')"
    and sc: "list_all (succeeded a) (calls st4' st5)" by (metis list_all_append)+
  with g4' have s4: "list_all (succeeded a) (trace st4)" by (metis list_all_append)
  with g4 have s3: "list_all (succeeded a) (trace st3)"
    and s2: "list_all (succeeded a) (calls st3 st4)" by (metis list_all_append)+
  with g3 have s1: "list_all (succeeded a) (calls st2 st3)" by (metis list_all_append)
  \<comment> \<open>the lists\<close>
  from getFileLists_effect [OF rel1 ok1 lists] f1 a1 a loc
  have ok2: "ok (ftpServer st2)" and f2: "files (ftpServer st2) = files s"
    and rf2: "set (remoteFiles st2) = dom (files s)"
    and lf2: "localFiles st2 = local"
    by simp_all
  from lists a1 have a2: "argData st2 = a" by (simp add: getFileLists_argData)
  from under a have pre: "\<forall>p \<in> set local. prefix (localDirectory a) p" by simp
  have plain_r: "plain r" and young_r: "fresh r t \<Longrightarrow> \<not> DateTime_less ftp t (localTime ftp fs p)"
    if "p \<in> set local" and "isFile fs p" and "localFileToRemote a p = Inr r" for p r t
    using that tm young by (auto simp: remoteName_def)
  \<comment> \<open>the first pass\<close>
  from s1 a2 have s1': "list_all (succeeded (argData st2)) (calls st2 st3)" by simp
  note e1 = pass1_effect [OF rel ok2 p1 s1']
  from e1 a2 lf2 have ok3: "ok (ftpServer st3)" and a3: "argData st3 = a"
    and lf3: "localFiles st3 = local" by simp_all
  from e1(4,5) rf2 f2 have rf3: "set (remoteFiles st3) = dom (files (ftpServer st3))" by simp
  from e1(8) e1(5) rf2 f2 a2 lf2
  have held3: "\<forall>p \<in> set local. \<exists>r. localFileToRemote a p = Inr r \<and> r \<in> dom (files (ftpServer st3))"
    by auto
  \<comment> \<open>the second pass\<close>
  from p2 have loop2: "forEach (removeIfDeleted ftp) (remoteFiles st3) st3 = (Inr (), st4)"
    by (simp add: pass2_def)
  from pass2_effect [OF rel ok3 loop2 s2] a3 lf3
  have ok4: "ok (ftpServer st4)" and a4: "argData st4 = a" and lf4: "localFiles st4 = local"
    and rf4: "remoteFiles st4 = remoteFiles st3"
    and f4: "files (ftpServer st4) =
           (\<lambda>f. if f \<in> set (remoteFiles st3) \<and> isOrphan a local f then None
                else files (ftpServer st3) f)"
    and def4: "\<forall>f \<in> set (remoteFiles st3). \<exists>l. remoteFileToLocal a f = Inr l"
    by simp_all
  have dom4: "dom (files (ftpServer st4)) = {f \<in> dom (files (ftpServer st3)). \<not> isOrphan a local f}"
    using f4 rf3 by (auto simp: domIff split: if_splits)
  have held4: "\<forall>p \<in> set local. \<forall>r. localFileToRemote a p = Inr r
      \<longrightarrow> r \<in> dom (files (ftpServer st4))"
  proof (intro ballI allI impI)
    fix p r assume p: "p \<in> set local" and r: "localFileToRemote a p = Inr r"
    with held3 have "r \<in> dom (files (ftpServer st3))" by fastforce
    moreover from not_orphan_of_local [OF stem _ r p] pre p have "\<not> isOrphan a local r" by blast
    ultimately show "r \<in> dom (files (ftpServer st4))" using dom4 by simp
  qed
  \<comment> \<open>the third pass\<close>
  let ?st4e = "st4\<lparr>remoteFileModifiedTimes := Map.empty\<rparr>"
  from fill have loop3: "forEach (noteModifiedTime ftp) (remoteFiles st4) ?st4e = (Inr (), st4')"
    by (simp add: fillModifiedTimes_def)
  have "ok (ftpServer st4') \<and> files (ftpServer st4') = files (ftpServer ?st4e)
       \<and> (\<forall>k. plain k \<longrightarrow> remoteFileModifiedTimes st4' k =
            (if k \<in> set (remoteFiles st4) then files (ftpServer ?st4e) k
             else remoteFileModifiedTimes ?st4e k))
       \<and> (\<forall>k. k \<notin> set (remoteFiles st4)
            \<longrightarrow> remoteFileModifiedTimes st4' k = remoteFileModifiedTimes ?st4e k)
       \<and> argData st4' = argData ?st4e \<and> localFiles st4' = localFiles ?st4e
       \<and> remoteFiles st4' = remoteFiles ?st4e"
    using ok4 by (intro fill_loop [OF rel _ _ loop3]) simp_all
  with a4 lf4 rf4 have ok4': "ok (ftpServer st4')"
    and f4': "files (ftpServer st4') = files (ftpServer st4)"
    and m4': "\<forall>k. plain k \<longrightarrow> remoteFileModifiedTimes st4' k =
           (if k \<in> set (remoteFiles st3) then files (ftpServer st4) k else None)"
    and a4': "argData st4' = a" and lf4': "localFiles st4' = local"
    by (simp_all cong: if_cong)
  have m: "remoteFileModifiedTimes st4' k = files (ftpServer st4) k" if "plain k" for k
    using that m4' f4 rf3 by (auto simp: domIff)
  from copy have loop4: "forEach (copyIfUpdated ftp fs) local st4' = (Inr (), st5)"
    by (simp add: copyUpdated_def lf4')
  have inv: "\<forall>k. plain k \<longrightarrow> files (ftpServer st4') k = remoteFileModifiedTimes st4' k
        \<or> (\<exists>t. files (ftpServer st4') k = Some t \<and> fresh k t)"
    using m f4' by simp
  have known: "\<forall>p \<in> set local. isFile fs p \<longrightarrow> (\<forall>r. localFileToRemote (argData st4') p = Inr r
        \<longrightarrow> plain r \<and> r \<in> dom (remoteFileModifiedTimes st4') \<and> r \<in> dom (files (ftpServer st4')))"
  proof (intro ballI allI impI)
    fix p r
    assume p: "p \<in> set local" and isf: "isFile fs p"
      and "localFileToRemote (argData st4') p = Inr r"
    with a4' have r: "localFileToRemote a p = Inr r" by simp
    from plain_r [OF p isf r] have tr: "plain r" .
    from held4 p r have "r \<in> dom (files (ftpServer st4))" by blast
    with tr m [OF tr] f4'
    show "plain r \<and> r \<in> dom (remoteFileModifiedTimes st4') \<and> r \<in> dom (files (ftpServer st4'))"
      by (simp add: domIff)
  qed
  have young': "\<forall>p \<in> set local. isFile fs p \<longrightarrow>
        (\<forall>r t. localFileToRemote (argData st4') p = Inr r \<longrightarrow> fresh r t
           \<longrightarrow> \<not> DateTime_less ftp t (localTime ftp fs p))"
    using young_r a4' by simp
  from copy_effect [OF rel ok4' young' loop4 sc inv known] a4' f4'
  have ok5: "ok (ftpServer st5)"
    and dom5: "dom (files (ftpServer st5)) = dom (files (ftpServer st4))"
    and post: "\<forall>p \<in> set local. isFile fs p \<longrightarrow> (\<forall>r. localFileToRemote a p = Inr r \<longrightarrow>
            (\<exists>t. files (ftpServer st5) r = Some t \<and> \<not> DateTime_less ftp t (localTime ftp fs p)))"
    by simp_all
  from keepsD [OF disconnect_steady [OF rel] dis] ok5
  have ok_end: "ok (ftpServer st)" and f_end: "files (ftpServer st) = files (ftpServer st5)"
    by (simp_all add: steady_def)
  \<comment> \<open>the mirror\<close>
  have "mirrored ftp fs a local (files (ftpServer st))"
    unfolding mirrored_def
  proof (intro conjI ballI impI allI)
    fix p assume "p \<in> set local"
    with held3 held4 dom5 f_end
    show "\<exists>r. localFileToRemote a p = Inr r \<and> r \<in> dom (files (ftpServer st))"
      by fastforce
  next
    fix f assume "f \<in> dom (files (ftpServer st))"
    with f_end dom5 dom4 have in3: "f \<in> dom (files (ftpServer st3))"
      and no: "\<not> isOrphan a local f" by simp_all
    from in3 rf3 def4 obtain l where "remoteFileToLocal a f = Inr l" by blast
    with no show "\<exists>l. remoteFileToLocal a f = Inr l \<and> l \<in> set local"
      by (simp add: isOrphan_def)
  next
    fix p r t
    assume "p \<in> set local" and "isFile fs p" and "localFileToRemote a p = Inr r"
      and "files (ftpServer st) r = Some t"
    with post f_end show "\<not> DateTime_less ftp t (localTime ftp fs p)" by fastforce
  qed
  with ok_end a_end show ?thesis by blast
qed

subsection \<open>The sample server is a reliable one\<close>

lemma map_of_without:
  "map_of (filter (\<lambda>e. fst e \<notin> A) xs) k = (if k \<in> A then None else map_of xs k)"
  by (induction xs) auto

lemma map_of_stamped:
  "map_of (map (\<lambda>p. (g p, c)) fl) k = (if k \<in> g ` set fl then Some c else None)"
  by (induction fl) auto

lemma map_of_but_one:
  "map_of (filter (\<lambda>e. fst e \<noteq> r) xs) = (map_of xs)(r := None)"
  by (induction xs) (auto simp: fun_eq_iff)

lemma map_of_put:
  "map_of (filter (\<lambda>e. fst e \<notin> g ` set fl) xs @ map (\<lambda>p. (g p, c)) fl) k
     = (if k \<in> g ` set fl then Some c else map_of xs k)"
  by (simp add: map_add_def map_of_without map_of_stamped split: option.splits)

lemma map_of_replace:
  "map_of (filter (\<lambda>e. fst e \<noteq> r) xs @ [(r, c)]) = (map_of xs)(r \<mapsto> c)"
  by (auto simp: fun_eq_iff map_add_def map_of_but_one split: option.splits)

lemma sampleTreeFTP_reliable:
  "reliable sampleTreeFTP sampleOk sampleHeld ''/r'' ''/r'' samplePlain sampleFresh"
  unfolding reliable_def
proof (intro conjI allI)
  show "unchanged sampleOk sampleHeld (connect sampleTreeFTP)"
    by (auto simp: unchanged_def sampleTreeFTP_def sampleFTP_def)
  show "unchanged sampleOk sampleHeld (disconnect sampleTreeFTP)"
    by (auto simp: unchanged_def sampleTreeFTP_def sampleFTP_def)
  show "unchanged sampleOk sampleHeld (fileExists sampleTreeFTP p)" for p
    by (auto simp: unchanged_def sampleTreeFTP_def sampleFTP_def)
  show "unchanged sampleOk sampleHeld (makeRemotePath sampleTreeFTP ''/r'')"
    by (auto simp: unchanged_def sampleTreeFTP_def sampleFTP_def sampleOk_def sampleHeld_def)
  show "unchanged sampleOk sampleHeld (changeWorkingDirectory sampleTreeFTP ''/r'')"
    by (auto simp: unchanged_def sampleTreeFTP_def sampleFTP_def sampleOk_def sampleHeld_def)
  show "unchanged sampleOk sampleHeld (getCurrentWoringDirectory sampleTreeFTP old)" for old
    by (auto simp: unchanged_def sampleTreeFTP_def sampleFTP_def)
  show "unchanged sampleOk sampleHeld (listRemoteRecursive sampleTreeFTP d)" for d
    by (auto simp: unchanged_def sampleTreeFTP_def sampleFTP_def)
  show "unchanged sampleOk sampleHeld (getModifiedDateTime sampleTreeFTP f)" for f
    by (auto simp: unchanged_def sampleTreeFTP_def sampleFTP_def split: option.splits if_splits)
  show "reportsDirectory sampleTreeFTP sampleOk ''/r'' ''/r''"
    by (auto simp: reportsDirectory_def sampleTreeFTP_def sampleFTP_def)
  show "listsHeld sampleTreeFTP sampleOk sampleHeld ''/r''"
    by (auto simp: listsHeld_def sampleTreeFTP_def sampleFTP_def sampleHeld_def
        dom_map_of_conv_image_fst)
  show "tellsTime sampleTreeFTP sampleOk sampleHeld samplePlain"
    by (auto simp: tellsTime_def sampleTreeFTP_def sampleFTP_def sampleHeld_def sampleOk_def
        samplePlain_def split: option.splits if_splits)
  show "putsFiles sampleTreeFTP sampleOk sampleHeld sampleFresh"
    unfolding putsFiles_def
  proof (intro allI impI)
    fix l fl s q s'
    assume ok: "sampleOk s" and put: "putFiles sampleTreeFTP l fl s = (q, s')"
    let ?g = "\<lambda>p. workingDirectory s @ drop (length l - 1) p"
    from put have q: "q = Inr (map ?g fl)"
      and s': "s' = s\<lparr>listing := filter (\<lambda>e. fst e \<notin> ?g ` set fl) (listing s)
                 @ map (\<lambda>p. (?g p, clock s)) fl\<rparr>"
      by (simp_all add: sampleTreeFTP_def sampleFTP_def)
    have held: "sampleHeld s' k = (if k \<in> ?g ` set fl then Some (clock s) else sampleHeld s k)" for k
      using map_of_put [of ?g fl "listing s" "clock s" k] by (simp add: s' sampleHeld_def)
    from ok s' have "sampleOk s'" by (simp add: sampleOk_def)
    moreover have "dom (sampleHeld s') = dom (sampleHeld s) \<union> set got
        \<and> (\<forall>f. f \<notin> set got \<longrightarrow> sampleHeld s' f = sampleHeld s f)
        \<and> (\<forall>f t. f \<in> set got \<longrightarrow> sampleHeld s' f = Some t \<longrightarrow> sampleFresh f t)"
      if "q = Inr got" for got
    proof -
      from that q have got: "set got = ?g ` set fl" by auto
      show ?thesis using ok
        by (auto simp: held got sampleFresh_def sampleOk_def domIff split: if_splits)
    qed
    ultimately show "sampleOk s' \<and> (\<forall>got. q = Inr got \<longrightarrow>
           dom (sampleHeld s') = dom (sampleHeld s) \<union> set got
           \<and> (\<forall>f. f \<notin> set got \<longrightarrow> sampleHeld s' f = sampleHeld s f)
           \<and> (\<forall>f t. f \<in> set got \<longrightarrow> sampleHeld s' f = Some t \<longrightarrow> sampleFresh f t))"
      by blast
  qed
  show "putsFile sampleTreeFTP sampleOk sampleHeld samplePlain sampleFresh"
    by (auto simp: putsFile_def sampleTreeFTP_def sampleFTP_def sampleHeld_def sampleOk_def
        sampleFresh_def map_of_replace simp del: map_of_append)
  show "deletesFile sampleTreeFTP sampleOk sampleHeld"
    by (auto simp: deletesFile_def sampleTreeFTP_def sampleFTP_def sampleHeld_def sampleOk_def
        map_of_but_one split: if_splits)
  show "removesDirectory sampleTreeFTP sampleOk sampleHeld"
    by (auto simp: removesDirectory_def sampleTreeFTP_def sampleFTP_def)
qed

subsection \<open>The path mapping\<close>

text \<open>
  C1. With the local root as \<open>procCmdLine\<close> leaves it and any remote root (the one of
  the command line or the one the server reports later), a local path under the local
  root is mapped to the remote root, a separator and the rest of the path, and mapping
  that remote path back gives the local path again.
\<close>

theorem mapping_inverse:
  assumes "procCmdLine args = Some parsed"
    and "a = parsed\<lparr>remoteDirectory := R\<rparr>"
    and "p = localDirectory a @ rest"
  shows "localFileToRemote a p = Inr (R @ CHR ''/'' # rest)
       \<and> remoteFileToLocal a (R @ CHR ''/'' # rest) = Inr p"
proof -
  from procCmdLine_local [OF assms(1)] assms(2)
  obtain stem where "localDirectory a = stem @ [CHR ''/'']" by auto
  from localFileToRemote_under_root [OF this, of rest] assms(2,3)
  have "localFileToRemote a p = Inr (R @ CHR ''/'' # rest)" by simp
  moreover from remoteFileToLocal_under_root [of a "CHR ''/''" rest] assms(2,3)
  have "remoteFileToLocal a (R @ CHR ''/'' # rest) = Inr p" by simp
  ultimately show ?thesis by simp
qed

theorem mapping_inverse_witness:
  "procCmdLine sampleArgs = Some sampleParsed
   \<and> localFileToRemote sampleParsed ''/l/d/b.txt'' = Inr ''/r/d/b.txt''
   \<and> remoteFileToLocal sampleParsed ''/r/d/b.txt'' = Inr ''/l/d/b.txt''"
  using mapping_inverse [of sampleArgs sampleParsed sampleParsed "''/r''" "''/l/d/b.txt''" "''d/b.txt''"]
  by (simp add: procCmdLine_def sampleArgs_def sampleParsed_def)

text \<open>
  C7. The functions compare no prefix. With the local root as \<open>procCmdLine\<close> leaves it,
  \<open>localFileToRemote\<close> throws \<open>std::out_of_range\<close> exactly when the path is shorter than
  the root without its last separator, and \<open>remoteFileToLocal\<close> exactly when the path
  is not longer than the remote root; every other path is mapped, the root put before
  what is left of the path after that many characters, whether or not the path begins
  with the root. When the function throws, it returns no path.
\<close>

theorem mapping_fails_on_short_paths_only:
  assumes "procCmdLine args = Some parsed"
    and "a = parsed\<lparr>remoteDirectory := R\<rparr>"
  shows "localFileToRemote a p =
           (if length p < length (localDirectory a) - 1 then Inl std_out_of_range
            else Inr (R @ drop (length (localDirectory a) - 1) p))
       \<and> remoteFileToLocal a r =
           (if length r \<le> length R then Inl std_out_of_range
            else Inr (localDirectory a @ drop (length R + 1) r))"
proof -
  from procCmdLine_local [OF assms(1)] assms(2)
  obtain stem where "localDirectory a = stem @ [CHR ''/'']" by auto
  then have "localFileToRemote a p =
           (if length p < length (localDirectory a) - 1 then Inl std_out_of_range
            else Inr (R @ drop (length (localDirectory a) - 1) p))"
    using assms(2) by (simp add: localFileToRemote_def substr_def rfind_ends)
  moreover have "remoteFileToLocal a r =
           (if length r \<le> length R then Inl std_out_of_range
            else Inr (localDirectory a @ drop (length R + 1) r))"
    using assms(2) by (auto simp: remoteFileToLocal_def substr_def)
  ultimately show ?thesis by simp
qed

theorem mapping_fails_on_short_paths_only_witness:
  "procCmdLine sampleArgs = Some sampleParsed
   \<and> localFileToRemote sampleParsed ''/'' = Inl std_out_of_range
   \<and> localFileToRemote sampleParsed ''/x/a'' = Inr ''/r/a''
   \<and> remoteFileToLocal sampleParsed ''/r'' = Inl std_out_of_range
   \<and> remoteFileToLocal sampleParsed ''/q/a'' = Inr ''/l/a''"
  using mapping_fails_on_short_paths_only [of sampleArgs sampleParsed sampleParsed "''/r''" "''/''" "''/r''"]
    mapping_fails_on_short_paths_only [of sampleArgs sampleParsed sampleParsed "''/r''" "''/x/a''" "''/q/a''"]
  by (simp add: procCmdLine_def sampleArgs_def sampleParsed_def)

theorem mapping_error_counterexample:
  "\<not> prefix (localDirectory sampleParsed) ''/x/a''
   \<and> localFileToRemote sampleParsed ''/x/a'' = Inr ''/r/a''
   \<and> \<not> prefix (remoteDirectory sampleParsed) ''/q/a''
   \<and> remoteFileToLocal sampleParsed ''/q/a'' = Inr ''/l/a''"
  by (simp add: sampleArgs_def sampleParsed_def localFileToRemote_def remoteFileToLocal_def
      substr_def rfind_def)

subsection \<open>The sample run\<close>

lemmas run_defs = syncMain_def syncBody_def setUp_def reconcile_def syncStart_def procCmdLine_def
  connectServer_def createRemoteDirectory_def enterRemoteDirectory_def getFileLists_def
  passes_def pass1_def pass2_def pass3_def fillModifiedTimes_def copyUpdated_def
  noteNewFile_def removeIfDeleted_def noteModifiedTime_def copyIfUpdated_def subscript_def
  bindM_def returnM_def throwM_def call_def callLocal_def answer_def exitStatus_def
  EXIT_SUCCESS_def EXIT_FAILURE_def localFileToRemote_def remoteFileToLocal_def substr_def
  rfind_def

lemma sampleRun_eq:
  "sampleRun = Some (0,
     \<lparr>ftpServer = \<lparr>listing = [(''/r/b'', 300), (''/r/a'', 300)], folders = [''/r''],
                    workingDirectory = ''/r'', clock = 300, mdtm = True, mkdirs = True\<rparr>,
      trace = [(Connect, Status 230), (FileExists ''/r'', Flag True),
               (ChangeWorkingDirectory ''/r'', Status 250),
               (GetCurrentWoringDirectory, Directory ''/r''),
               (ListRemoteRecursive ''/r'', Files [''/r/a'', ''/r/x'']),
               (ListLocalRecursive ''/l/'', Files [''/l/a'', ''/l/b'']),
               (PutFiles ''/l/'' [''/l/b''], Files [''/r/b'']),
               (DeleteFile ''/r/x'', Status 250),
               (GetModifiedDateTime ''/r/a'', Status 213),
               (GetModifiedDateTime ''/r/x'', Status 550),
               (GetModifiedDateTime ''/r/b'', Status 213),
               (PutFile ''/r/a'' ''/l/a'', Status 226), (Disconnect, Status 221)],
      argData = sampleParsed,
      localFiles = [''/l/a'', ''/l/b''],
      remoteFiles = [''/r/a'', ''/r/x'', ''/r/b''],
      newFiles = [''/l/b''], newFilesTransfered = [''/r/b''],
      remoteFileModifiedTimes = [''/r/a'' \<mapsto> 100, ''/r/b'' \<mapsto> 300]\<rparr>)"
  by (simp add: sampleRun_def run_defs sampleFTP_def sampleFiles_def sampleArgs_def
      sampleServer_def sampleParsed_def)

subsection \<open>The second pass\<close>

text \<open>
  C4. Whatever a run of FTPSync asked the server to delete, as a file or as a directory,
  is a remote path whose local name \<open>remoteFileToLocal\<close> gives is not in the list of
  local files; the parameters and the list are those of the second pass, which nothing
  changes after it. So no remote path whose local counterpart is in the local list is
  ever deleted, also in a run that an exception ends.
\<close>

theorem deletes_only_orphans:
  assumes "syncMain ftp fs args s = Some (code, st)"
    and "c \<in> set (commands (trace st))" and "removal c = Some f"
  shows "isOrphan (argData st) (localFiles st) f"
proof -
  from assms(1) obtain parsed r where "procCmdLine args = Some parsed"
    and body: "syncBody ftp fs (syncStart parsed s) = (r, st)"
    by (auto simp: syncMain_def split: option.splits prod.splits)
  let ?st0 = "syncStart parsed s"
  have start: "trace ?st0 = []" by (simp add: syncStart_def)
  have none: "False" if "quiet ?st0 st"
    using quiet_from_start [OF start that assms(2)] assms(3) by simp
  from body show ?thesis unfolding syncBody_def
  proof (cases rule: bindM_cases)
    case (thrown e)
    with setUp_quiet have "quiet ?st0 st" by (auto dest: keepsD)
    with none show ?thesis by blast
  next
    case (went u st1)
    with setUp_quiet have q1: "quiet ?st0 st1" by (auto dest: keepsD)
    from went(2) show ?thesis unfolding reconcile_def
    proof (cases rule: bindM_cases)
      case (thrown e)
      with getFileLists_quiet have "quiet st1 st" by (auto dest: keepsD)
      with q1 quiet_trans have "quiet ?st0 st" by (blast dest: transpD)
      with none show ?thesis by blast
    next
      case (went v st2)
      with getFileLists_quiet have "quiet st1 st2" by (auto dest: keepsD)
      with q1 quiet_trans have q2: "quiet ?st0 st2" by (blast dest: transpD)
      from went(2) afterLists_settled have s: "settled st2 st" by (rule keepsD [rotated])
      from s have "trace st = trace st2 @ calls st2 st" by (simp add: settled_def)
      with assms(2) have "c \<in> set (commands (trace st2)) \<or> c \<in> set (issued st2 st)"
        by (metis (no_types, lifting) Un_iff commands_def issued_def map_append set_append)
      then show ?thesis
      proof
        assume "c \<in> set (commands (trace st2))"
        with quiet_from_start [OF start q2] assms(3) show ?thesis
          by simp
      next
        assume "c \<in> set (issued st2 st)"
        with s assms(3) show ?thesis by (auto simp: settled_def)
      qed
    qed
  qed
qed


theorem deletes_only_orphans_witness:
  "sampleRun = Some (0, snd (the sampleRun))
   \<and> DeleteFile ''/r/x'' \<in> set (commands (trace (snd (the sampleRun))))
   \<and> removal (DeleteFile ''/r/x'') = Some ''/r/x''
   \<and> isOrphan (argData (snd (the sampleRun))) (localFiles (snd (the sampleRun))) ''/r/x''"
proof -
  have run: "sampleRun = Some (0, snd (the sampleRun))"
    by (simp add: sampleRun_eq)
  have del: "DeleteFile ''/r/x'' \<in> set (commands (trace (snd (the sampleRun))))"
    by (simp add: sampleRun_eq commands_def)
  from deletes_only_orphans [OF run [unfolded sampleRun_def] del [unfolded sampleRun_def], of "''/r/x''"]
  have "isOrphan (argData (snd (the sampleRun))) (localFiles (snd (the sampleRun))) ''/r/x''"
    by (simp add: sampleRun_def)
  with run del show ?thesis by simp
qed

subsection \<open>The roots\<close>

text \<open>
  C9. In a run that gets as far as the file lists, the local root is the one
  \<open>procCmdLine\<close> left, ending in the separator; the remote root is the directory the
  server reported last, as it reported it, with no separator put after it; and the
  parameters at the end of the run, however it ends, are those the lists and the three
  passes began with.
\<close>

theorem roots_of_a_run:
  assumes "procCmdLine args = Some parsed"
    and "setUp ftp (syncStart parsed s) = (Inr (), st1)"
    and "reconcile ftp fs st1 = (r, st2)"
  shows "syncMain ftp fs args s = Some (exitStatus r, st2)
       \<and> last (localDirectory (argData st1)) = CHR ''/''
       \<and> last (trace st1) = (GetCurrentWoringDirectory, Directory (remoteDirectory (argData st1)))
       \<and> argData st2 = argData st1"
proof -
  from assms have "syncMain ftp fs args s = Some (exitStatus r, st2)"
    by (simp add: syncMain_def syncBody_def bindM_def)
  moreover from procCmdLine_local [OF assms(1)] setUp_roots [OF assms(2)]
  have "last (localDirectory (argData st1)) = CHR ''/''"
    by (auto simp: syncStart_def)
  moreover note setUp_roots [OF assms(2)] reconcile_argData [OF assms(3)]
  ultimately show ?thesis by simp
qed


theorem roots_of_a_run_witness:
  "procCmdLine sampleArgs = Some sampleParsed
   \<and> fst (setUp sampleFTP (syncStart sampleParsed sampleServer)) = Inr ()
   \<and> sampleRun = Some (exitStatus (fst (reconcile sampleFTP sampleFiles
        (snd (setUp sampleFTP (syncStart sampleParsed sampleServer))))),
      snd (reconcile sampleFTP sampleFiles (snd (setUp sampleFTP (syncStart sampleParsed sampleServer)))))
   \<and> argData (snd (reconcile sampleFTP sampleFiles
        (snd (setUp sampleFTP (syncStart sampleParsed sampleServer)))))
      = argData (snd (setUp sampleFTP (syncStart sampleParsed sampleServer)))"
proof -
  have parsed: "procCmdLine sampleArgs = Some sampleParsed"
    by (simp add: procCmdLine_def sampleArgs_def sampleParsed_def)
  have up: "fst (setUp sampleFTP (syncStart sampleParsed sampleServer)) = Inr ()"
    by (simp add: run_defs sampleFTP_def sampleArgs_def sampleServer_def sampleParsed_def)
  then have up': "setUp sampleFTP (syncStart sampleParsed sampleServer)
      = (Inr (), snd (setUp sampleFTP (syncStart sampleParsed sampleServer)))"
    by (metis prod.collapse)
  have rec: "reconcile sampleFTP sampleFiles
        (snd (setUp sampleFTP (syncStart sampleParsed sampleServer)))
      = (fst (reconcile sampleFTP sampleFiles
          (snd (setUp sampleFTP (syncStart sampleParsed sampleServer)))),
         snd (reconcile sampleFTP sampleFiles
          (snd (setUp sampleFTP (syncStart sampleParsed sampleServer)))))"
    by simp
  from roots_of_a_run [OF parsed up' rec] show ?thesis
    using parsed up by (simp add: sampleRun_def)
qed

theorem remote_root_counterexample:
  "sampleRun \<noteq> None
   \<and> remoteDirectory (argData (snd (the sampleRun))) = ''/r''
   \<and> last (remoteDirectory (argData (snd (the sampleRun)))) \<noteq> CHR ''/''"
  by (simp add: sampleRun_eq sampleParsed_def sampleArgs_def)

subsection \<open>The remote directory\<close>




subsection \<open>The first pass\<close>




subsection \<open>The third pass\<close>




subsection \<open>The map of modification times\<close>

text \<open>
  C6. On a server that answers no query for a modification time, the query for
  \<open>/r/a\<close> is answered with 500 and never with 213, and yet at the end of the run the
  map has a time for \<open>/r/a\<close>: the default \<open>DateTime\<close>, which the comparison of the third
  pass put there through \<open>operator[]\<close>. (As the first loop of the third pass leaves it,
  the map has a time only for a path whose query was answered with 213: that is
  \<open>oracle_as_built\<close>.)
\<close>

theorem failed_query_gets_default_time:
  "(GetModifiedDateTime ''/r/a'', Status 500)
     \<in> set (trace (snd (the (syncMain sampleFTP sampleFiles sampleArgs sampleNoMdtm))))
   \<and> (GetModifiedDateTime ''/r/a'', Status 213)
     \<notin> set (trace (snd (the (syncMain sampleFTP sampleFiles sampleArgs sampleNoMdtm))))
   \<and> remoteFileModifiedTimes (snd (the (syncMain sampleFTP sampleFiles sampleArgs sampleNoMdtm)))
       ''/r/a'' = Some (DateTime_default sampleFTP)"
  by (simp add: run_defs sampleFTP_def sampleFiles_def sampleArgs_def sampleServer_def
      sampleNoMdtm_def)


subsection \<open>Backup and restore\<close>

text \<open>
  C8. How FTPBackup and FTPRestore end, by what the library answers. When the
  connection throws or is not answered with 230, when the listing throws, or when
  \<open>putFiles\<close> or \<open>getFiles\<close> throws, the exit status is that of failure and nothing is
  reported. Otherwise the report is one line of success for each file that \<open>putFiles\<close>
  or \<open>getFiles\<close> returned as transferred, and the one line of failure when it returned
  none or was not called because the list was empty; the exit status is then that of
  success when \<open>disconnect\<close> returns and that of failure when it throws, whatever was
  transferred. In each case the server is left as the last call left it.
\<close>

theorem backup_restore_status:
  "((connect ftp s = (Inl e, connected) \<or> connect ftp s = (Inr c, connected) \<and> c \<noteq> 230 \<longrightarrow>
       ends (backupMain ftp fs localDir s) EXIT_FAILURE [] connected)
    \<and> (connect ftp s = (Inr 230, connected) \<longrightarrow>
         (listLocalRecursive fs localDir = Inl e \<longrightarrow>
            ends (backupMain ftp fs localDir s) EXIT_FAILURE [] connected)
       \<and> (listLocalRecursive fs localDir = Inr locaFileList \<longrightarrow>
            (locaFileList \<noteq> [] \<and> putFiles ftp localDir locaFileList connected = (Inl e, sent) \<longrightarrow>
               ends (backupMain ftp fs localDir s) EXIT_FAILURE [] sent)
          \<and> (locaFileList = [] \<and> filesBackedUp = [] \<and> sent = connected
               \<or> locaFileList \<noteq> []
                 \<and> putFiles ftp localDir locaFileList connected = (Inr filesBackedUp, sent) \<longrightarrow>
               (disconnect ftp sent = (Inr c, final) \<longrightarrow>
                  ends (backupMain ftp fs localDir s) EXIT_SUCCESS
                    (if filesBackedUp = [] then [''Backup failed.'']
                     else map (\<lambda>f. ''Sucessfully backed up ['' @ f @ '']'') filesBackedUp) final)
             \<and> (disconnect ftp sent = (Inl e, final) \<longrightarrow>
                  ends (backupMain ftp fs localDir s) EXIT_FAILURE
                    (if filesBackedUp = [] then [''Backup failed.'']
                     else map (\<lambda>f. ''Sucessfully backed up ['' @ f @ '']'') filesBackedUp) final)))))
   \<and> ((connect ftp s = (Inl e, connected) \<or> connect ftp s = (Inr c, connected) \<and> c \<noteq> 230 \<longrightarrow>
       ends (restoreMain ftp remoteDir localDir s) EXIT_FAILURE [] connected)
    \<and> (connect ftp s = (Inr 230, connected) \<longrightarrow>
         (listRemoteRecursive ftp remoteDir connected = (Inl e, listed) \<longrightarrow>
            ends (restoreMain ftp remoteDir localDir s) EXIT_FAILURE [] listed)
       \<and> (listRemoteRecursive ftp remoteDir connected = (Inr remoteFileList, listed) \<longrightarrow>
            (remoteFileList \<noteq> [] \<and> getFiles ftp localDir remoteFileList listed = (Inl e, fetched) \<longrightarrow>
               ends (restoreMain ftp remoteDir localDir s) EXIT_FAILURE [] fetched)
          \<and> (remoteFileList = [] \<and> restoredFiles = [] \<and> fetched = listed
               \<or> remoteFileList \<noteq> []
                 \<and> getFiles ftp localDir remoteFileList listed = (Inr restoredFiles, fetched) \<longrightarrow>
               (disconnect ftp fetched = (Inr c, final) \<longrightarrow>
                  ends (restoreMain ftp remoteDir localDir s) EXIT_SUCCESS
                    (if restoredFiles = [] then [''Restore failed.'']
                     else map (\<lambda>f. ''Successfully restored ['' @ f @ '']'') restoredFiles) final)
             \<and> (disconnect ftp fetched = (Inl e, final) \<longrightarrow>
                  ends (restoreMain ftp remoteDir localDir s) EXIT_FAILURE
                    (if restoredFiles = [] then [''Restore failed.'']
                     else map (\<lambda>f. ''Successfully restored ['' @ f @ '']'') restoredFiles) final)))))"
  by (auto simp: console_defs)


theorem backup_restore_status_witness:
  "ends (backupMain sampleFTP sampleFiles ''/l/'' sampleServer) EXIT_SUCCESS
     [''Sucessfully backed up [//a]'', ''Sucessfully backed up [//b]'']
     (snd (putFiles sampleFTP ''/l/'' [''/l/a'', ''/l/b''] sampleServer))
   \<and> ends (backupMain sampleRefusing sampleFiles ''/l/'' sampleServer) EXIT_SUCCESS
     [''Backup failed.''] sampleServer
   \<and> ends (backupMain sampleHangup sampleFiles ''/l/'' sampleServer) EXIT_FAILURE
     [''Sucessfully backed up [//a]'', ''Sucessfully backed up [//b]'']
     (snd (putFiles sampleFTP ''/l/'' [''/l/a'', ''/l/b''] sampleServer))
   \<and> ends (restoreMain sampleFTP ''/r'' ''/l/'' sampleServer) EXIT_SUCCESS
     [''Successfully restored [/l//a]'', ''Successfully restored [/l//x]''] sampleServer"
proof -
  let ?put = "snd (putFiles sampleFTP ''/l/'' [''/l/a'', ''/l/b''] sampleServer)"
  from backup_restore_status [where ftp = sampleFTP and fs = sampleFiles and localDir = "''/l/''"
      and s = sampleServer and connected = sampleServer and locaFileList = "[''/l/a'', ''/l/b'']"
      and filesBackedUp = "[''//a'', ''//b'']" and sent = ?put and c = 221 and final = ?put]
  have b: "ends (backupMain sampleFTP sampleFiles ''/l/'' sampleServer) EXIT_SUCCESS
     [''Sucessfully backed up [//a]'', ''Sucessfully backed up [//b]''] ?put"
    by (simp add: sampleFTP_def sampleFiles_def sampleServer_def)
  from backup_restore_status [where ftp = sampleRefusing and fs = sampleFiles
      and localDir = "''/l/''" and s = sampleServer and connected = sampleServer
      and locaFileList = "[''/l/a'', ''/l/b'']" and filesBackedUp = "[]" and sent = sampleServer
      and c = 221 and final = sampleServer]
  have f: "ends (backupMain sampleRefusing sampleFiles ''/l/'' sampleServer) EXIT_SUCCESS
     [''Backup failed.''] sampleServer"
    by (simp add: sampleRefusing_def sampleFTP_def sampleFiles_def sampleServer_def)
  from backup_restore_status [where ftp = sampleHangup and fs = sampleFiles
      and localDir = "''/l/''" and s = sampleServer and connected = sampleServer
      and locaFileList = "[''/l/a'', ''/l/b'']" and filesBackedUp = "[''//a'', ''//b'']"
      and sent = ?put and e = "CFTP_Exception ''Connection lost''" and final = ?put]
  have h: "ends (backupMain sampleHangup sampleFiles ''/l/'' sampleServer) EXIT_FAILURE
     [''Sucessfully backed up [//a]'', ''Sucessfully backed up [//b]''] ?put"
    by (simp add: sampleHangup_def sampleFTP_def sampleFiles_def sampleServer_def)
  from backup_restore_status [where ftp = sampleFTP and remoteDir = "''/r''"
      and localDir = "''/l/''" and s = sampleServer and connected = sampleServer
      and remoteFileList = "[''/r/a'', ''/r/x'']" and listed = sampleServer
      and restoredFiles = "[''/l//a'', ''/l//x'']" and fetched = sampleServer and c = 221
      and final = sampleServer]
  have r: "ends (restoreMain sampleFTP ''/r'' ''/l/'' sampleServer) EXIT_SUCCESS
     [''Successfully restored [/l//a]'', ''Successfully restored [/l//x]''] sampleServer"
    by (simp add: sampleFTP_def sampleServer_def)
  from b f h r show ?thesis by simp
qed

theorem exit_failure_after_transfer:
  "fst (putFiles sampleHangup ''/l/'' [''/l/a'', ''/l/b''] sampleServer) = Inr [''//a'', ''//b'']
   \<and> cout (snd (backupMain sampleHangup sampleFiles ''/l/'' sampleServer))
     = [''Sucessfully backed up [//a]'', ''Sucessfully backed up [//b]'']
   \<and> fst (backupMain sampleHangup sampleFiles ''/l/'' sampleServer) = EXIT_FAILURE
   \<and> fst (getFiles sampleHangup ''/l/'' [''/r/a'', ''/r/x''] sampleServer)
     = Inr [''/l//a'', ''/l//x'']
   \<and> cout (snd (restoreMain sampleHangup ''/r'' ''/l/'' sampleServer))
     = [''Successfully restored [/l//a]'', ''Successfully restored [/l//x]'']
   \<and> fst (restoreMain sampleHangup ''/r'' ''/l/'' sampleServer) = EXIT_FAILURE"
  by (simp add: console_defs sampleHangup_def sampleFTP_def sampleFiles_def sampleServer_def)

subsection \<open>Two runs in succession\<close>

text \<open>
  C5. Let the server be a reliable one for the remote directory of the command line
  and the root it reports for it, let the local list have only paths under the local
  root, and for every file of the local list that is not a directory let its remote
  copy be a plain path, whose time the server tells when it holds it, and let the
  server stamp that copy, when it is put, with a time that the local file is not newer
  than. The time of any other path, a directory for one, need not be told. When a first run ends with the exit
  status of success and all its operations succeeded, a second run from the server as
  the first left it, with the same parameters and the same local files, returns and
  issues no operation: no \<open>putFiles\<close>, no \<open>putFile\<close>, no \<open>deleteFile\<close> and no
  \<open>removeDirectory\<close>. Without the condition on the stamp the second run pushes again:
  on the sample server with a clock behind the time of \<open>/l/a\<close>, where every operation
  of the first run succeeds and the time of every path the server holds is told, the
  second run puts \<open>/l/a\<close> once more. So it does without the condition on the query:
  on the sample server that tells no time, where every operation of the first run
  succeeds as well, the second run puts both local files again.
\<close>

theorem second_run_has_nothing_to_do:
  fixes ftp :: "('s, 't) CFTP"
  assumes rel: "reliable ftp ok files (remoteDirectory parsed) root plain fresh" and ok: "ok s"
    and parsed: "procCmdLine args = Some parsed"
    and a: "a = parsed\<lparr>remoteDirectory := root\<rparr>"
    and loc: "listLocalRecursive fs (localDirectory parsed) = Inr local"
    and under: "\<forall>p \<in> set local. prefix (localDirectory parsed) p"
    and tm: "\<forall>p \<in> set local. isFile fs p \<longrightarrow> plain (remoteName a p)"
    and young: "\<forall>p \<in> set local. isFile fs p \<longrightarrow>
        (\<forall>t. fresh (remoteName a p) t \<longrightarrow> \<not> DateTime_less ftp t (localTime ftp fs p))"
    and run1: "syncMain ftp fs args s = Some (EXIT_SUCCESS, st1)"
    and suc: "list_all (succeeded (argData st1)) (trace st1)"
  shows "\<exists>code st2. syncMain ftp fs args (ftpServer st1) = Some (code, st2)
           \<and> operations (trace st2) = []"
proof -
  from run1 obtain r1 where "syncBody ftp fs (syncStart parsed s) = (r1, st1)"
    and "exitStatus r1 = EXIT_SUCCESS"
    by (auto simp: syncMain_eq [OF parsed])
  then have body1: "syncBody ftp fs (syncStart parsed s) = (Inr (), st1)"
    by (simp add: exitStatus_cases)
  from first_run_mirrors [OF rel ok parsed a loc under tm young body1 suc]
  have ok1: "ok (ftpServer st1)" and mir: "mirrored ftp fs a local (files (ftpServer st1))"
    by simp_all
  let ?again = "syncStart parsed (ftpServer st1) :: ('s, 't) FTPSync"
  obtain r st2 where body2: "syncBody ftp fs ?again = (r, st2)"
    by (cases "syncBody ftp fs ?again")
  have "trace ?again = []" by (simp add: syncStart_def)
  moreover from rel ok1 a loc tm mir body2 have "quiet ?again st2" by (rule run_on_mirror)
  ultimately have "operations (trace st2) = []" by (rule quiet_operations)
  moreover from parsed body2 have "syncMain ftp fs args (ftpServer st1) = Some (exitStatus r, st2)"
    by (simp add: syncMain_def)
  ultimately show ?thesis by blast
qed

theorem second_run_has_nothing_to_do_witness:
  "reliable sampleTreeFTP sampleOk sampleHeld ''/r'' ''/r'' samplePlain sampleFresh
   \<and> sampleOk sampleTree
   \<and> \<not> isFile sampleTreeFiles ''/l/d''
   \<and> fst (getModifiedDateTime sampleTreeFTP ''/r/d'' sampleTree) = Inr (550, 0)
   \<and> sampleTreeRun = Some (EXIT_SUCCESS, snd (the sampleTreeRun))
   \<and> list_all (succeeded (argData (snd (the sampleTreeRun)))) (trace (snd (the sampleTreeRun)))
   \<and> operations (trace (snd (the (syncMain sampleTreeFTP sampleTreeFiles sampleArgs
        (ftpServer (snd (the sampleTreeRun))))))) = []"
proof -
  have ok: "sampleOk sampleTree"
    by (simp add: sampleOk_def sampleTree_def sampleServer_def)
  have dir: "\<not> isFile sampleTreeFiles ''/l/d''"
    and told: "fst (getModifiedDateTime sampleTreeFTP ''/r/d'' sampleTree) = Inr (550, 0)"
    by (simp_all add: sampleTreeFiles_def sampleTreeFTP_def sampleTree_def sampleServer_def)
  have parsed: "procCmdLine sampleArgs = Some sampleParsed"
    by (simp add: procCmdLine_def sampleArgs_def sampleParsed_def)
  have rel: "reliable sampleTreeFTP sampleOk sampleHeld (remoteDirectory sampleParsed) ''/r''
      samplePlain sampleFresh"
    using sampleTreeFTP_reliable by (simp add: sampleParsed_def sampleArgs_def)
  have loc: "listLocalRecursive sampleTreeFiles (localDirectory sampleParsed)
      = Inr [''/l/a'', ''/l/b'', ''/l/d'']"
    by (simp add: sampleTreeFiles_def)
  have under: "\<forall>p \<in> set [''/l/a'', ''/l/b'', ''/l/d'']. prefix (localDirectory sampleParsed) p"
    by (simp add: sampleParsed_def sampleArgs_def)
  have tm: "\<forall>p \<in> set [''/l/a'', ''/l/b'', ''/l/d'']. isFile sampleTreeFiles p
      \<longrightarrow> samplePlain (remoteName (sampleParsed\<lparr>remoteDirectory := ''/r''\<rparr>) p)"
    by (simp add: sampleTreeFiles_def samplePlain_def remoteName_def localFileToRemote_def
        substr_def rfind_def sampleParsed_def sampleArgs_def)
  have young: "\<forall>p \<in> set [''/l/a'', ''/l/b'', ''/l/d'']. isFile sampleTreeFiles p \<longrightarrow>
      (\<forall>t. sampleFresh (remoteName (sampleParsed\<lparr>remoteDirectory := ''/r''\<rparr>) p) t
         \<longrightarrow> \<not> DateTime_less sampleTreeFTP t (localTime sampleTreeFTP sampleTreeFiles p))"
    by (simp add: sampleFresh_def localTime_def sampleTreeFTP_def sampleFTP_def
        sampleTreeFiles_def)
  have run: "sampleTreeRun = Some (EXIT_SUCCESS, snd (the sampleTreeRun))"
    by (simp add: sampleTreeRun_def run_defs sampleTreeFTP_def sampleFTP_def
        sampleTreeFiles_def sampleArgs_def sampleTree_def sampleServer_def)
  have suc: "list_all (succeeded (argData (snd (the sampleTreeRun))))
      (trace (snd (the sampleTreeRun)))"
    by (simp add: sampleTreeRun_def run_defs sampleTreeFTP_def sampleFTP_def
        sampleTreeFiles_def sampleArgs_def sampleTree_def sampleServer_def succeeded_def
        remoteName_def)
  from second_run_has_nothing_to_do [OF rel ok parsed refl loc under tm young
      run [unfolded sampleTreeRun_def] suc [unfolded sampleTreeRun_def]]
  have "operations (trace (snd (the (syncMain sampleTreeFTP sampleTreeFiles sampleArgs
        (ftpServer (snd (the sampleTreeRun))))))) = []"
    by (auto simp: sampleTreeRun_def)
  with sampleTreeFTP_reliable ok dir told run suc show ?thesis by simp
qed

theorem second_run_pushes_again:
  "sampleSlowRun = Some (EXIT_SUCCESS, snd (the sampleSlowRun))
   \<and> map snd (trace (snd (the sampleSlowRun)))
       = [Status 230, Flag True, Status 250, Directory ''/r'', Files [''/r/a'', ''/r/x''],
          Files [''/l/a'', ''/l/b''], Files [''/r/b''], Status 250, Status 213, Status 550,
          Status 213, Status 226, Status 221]
   \<and> list_all (succeeded (argData (snd (the sampleSlowRun)))) (trace (snd (the sampleSlowRun)))
   \<and> operations (trace (snd (the
        (syncMain sampleFTP sampleFiles sampleArgs (ftpServer (snd (the sampleSlowRun)))))))
       = [PutFile ''/r/a'' ''/l/a'']
   \<and> fst (the (syncMain sampleFTP sampleFiles sampleArgs sampleNoMdtm)) = EXIT_SUCCESS
   \<and> list_all
        (succeeded (argData (snd (the (syncMain sampleFTP sampleFiles sampleArgs sampleNoMdtm)))))
        (trace (snd (the (syncMain sampleFTP sampleFiles sampleArgs sampleNoMdtm))))
   \<and> operations (trace (snd (the
        (syncMain sampleFTP sampleFiles sampleArgs
           (ftpServer (snd (the (syncMain sampleFTP sampleFiles sampleArgs sampleNoMdtm))))))))
       = [PutFile ''/r/a'' ''/l/a'', PutFile ''/r/b'' ''/l/b'']"
  by (simp add: sampleSlowRun_def run_defs sampleFTP_def sampleFiles_def sampleArgs_def
      sampleServer_def sampleSlow_def sampleNoMdtm_def succeeded_def remoteName_def
      operations_def commands_def)

end
